theory Spec2Isabelle
  imports Complex_Main "HOL-Library.Sublist"
begin

section \<open>The irrigation controller (smart-irrigation script)\<close>

text \<open>
  A shallow embedding of \<^verbatim>\<open>smart_irrigation.py\<close> (the control loop that runs on the
  Raspberry Pi) and of the manual-control and sensor-ingestion parts of \<^verbatim>\<open>app.py\<close>
  (the FastAPI backend).

  Conventions of the embedding:
  \<^item> Python \<^verbatim>\<open>float\<close> values (time stamps of \<^verbatim>\<open>time.time()\<close>, probabilities, percentages)
    are real numbers; binary rounding of the floating-point operations is not modelled.
  \<^item> Python \<^verbatim>\<open>int\<close> values are \<^typ>\<open>int\<close>.
  \<^item> Everything the loop reads from its environment in one iteration (clock, ADC
    samples, DHT22 reading, the model's output, the HTTP response of the control
    endpoint) is a field of the record \<open>tick_env\<close>; everything it writes (relay,
    report payload, console message) is a field of \<open>tick_out\<close>.
  \<^item> Exceptions are values of type \<open>error\<close> on the left of a sum.
  \<^item> The statement \<^verbatim>\<open>global last_manual_enabled\<close> (line 174) is left out. At module
    level it declares nothing, and since the name is assigned on line 151 the
    interpreter rejects the module at compile time on its account; the embedding
    describes the loop as it reads without that line.
\<close>

subsection \<open>User settings (lines 18-43)\<close>

definition WET :: int where "WET = 233"
definition DRY :: int where "DRY = 619"
definition THRESH_OVERRIDE :: "real option" where "THRESH_OVERRIDE = None"
definition EMERGENCY_ON_PCT :: real where "EMERGENCY_ON_PCT = 20.0"
definition BURST_ON_SEC :: real where "BURST_ON_SEC = 4"
definition REST_SEC :: real where "REST_SEC = 5"
definition MIN_ON_SEC :: real where "MIN_ON_SEC = 6"
definition MIN_OFF_SEC :: real where "MIN_OFF_SEC = 3"
definition MAX_ON_SEC :: real where "MAX_ON_SEC = 60"
definition MAX_MIN_PER_HOUR :: real where "MAX_MIN_PER_HOUR = 8"
definition HOURLY_BUCKET :: int where "HOURLY_BUCKET = 3600"
definition REPORT_INTERVAL :: real where "REPORT_INTERVAL = 5"
definition CONTROL_CHECK_INTERVAL :: real where "CONTROL_CHECK_INTERVAL = 3"
definition MEDIAN_N :: nat where "MEDIAN_N = 9"
definition AVG_WINDOW :: nat where "AVG_WINDOW = 12"

subsection \<open>Errors\<close>

datatype error =
    ZeroDivisionError
  | StatisticsError
  | KeyError
  | UnhandledLoadError
  | ValidationError

subsection \<open>Loading the model (lines 47-58)\<close>

text \<open>
  What \<^verbatim>\<open>joblib.load(MODEL_PATH)\<close> can do: return a bundle (a dictionary that may or may
  not have the keys \<^verbatim>\<open>"model"\<close>, \<^verbatim>\<open>"features"\<close> and \<^verbatim>\<open>"threshold"\<close>), raise
  \<^verbatim>\<open>FileNotFoundError\<close>, or raise anything else (a truncated or corrupt pickle). The
  \<^verbatim>\<open>try\<close> block has a single handler, for \<^verbatim>\<open>FileNotFoundError\<close>.
\<close>

datatype load_result =
    Bundle bool bool "real option"
  | FileNotFoundError
  | OtherLoadFailure

record config =
  MODEL :: bool
  THRESH :: real

definition apply_override :: "real \<Rightarrow> real" where
  "apply_override t = (case THRESH_OVERRIDE of None \<Rightarrow> t | Some v \<Rightarrow> v)"

definition load_model :: "load_result \<Rightarrow> error + config" where
  "load_model r =
     (case r of
        Bundle has_model has_features threshold \<Rightarrow>
          if \<not> has_model then Inl KeyError
          else if \<not> has_features then Inl KeyError
          else Inr \<lparr>MODEL = True,
                    THRESH = apply_override (case threshold of None \<Rightarrow> 0.06 | Some t \<Rightarrow> t)\<rparr>
      | FileNotFoundError \<Rightarrow> Inr \<lparr>MODEL = False, THRESH = apply_override 0.0\<rparr>
      | OtherLoadFailure \<Rightarrow> Inl UnhandledLoadError)"

subsection \<open>Soil percentage (lines 83-85)\<close>

text \<open>
  Python's \<^verbatim>\<open>round(x, n)\<close> rounds to the nearest multiple of \<open>10\<^sup>-\<^sup>n\<close>, a tie going to
  the even neighbour.
\<close>

definition round_half_even :: "real \<Rightarrow> int" where
  "round_half_even y =
     (let f = \<lfloor>y\<rfloor>; d = y - of_int f
      in if d < 1/2 then f
         else if d > 1/2 then f + 1
         else if even f then f else f + 1)"

definition py_round :: "real \<Rightarrow> nat \<Rightarrow> real" where
  "py_round x ndigits = of_int (round_half_even (x * 10 ^ ndigits)) / 10 ^ ndigits"

definition adc_to_pct :: "int \<Rightarrow> int \<Rightarrow> int \<Rightarrow> error + real" where
  "adc_to_pct v wet dry =
     (let v = max (min v dry) wet
      in if dry - wet = 0 then Inl ZeroDivisionError
         else Inr (py_round (100.0 * of_int (dry - v) / of_int (dry - wet)) 1))"

subsection \<open>Server API (lines 109-141)\<close>

datatype json = JNum real | JBool bool | JStr string

type_synonym payload = "(string \<times> json) list"

text \<open>
  \<^verbatim>\<open>send_sensor_data\<close> builds the request body and posts it; a network error is caught
  and printed. The model returns the body.
\<close>

definition send_sensor_data ::
  "real option \<Rightarrow> real option \<Rightarrow> real \<Rightarrow> bool \<Rightarrow> string \<Rightarrow> payload" where
  "send_sensor_data temp hum soil_pct irrigation_status ai_reason =
     (let temp_safe = (case temp of Some t \<Rightarrow> t | None \<Rightarrow> 25.0);
          hum_safe = (case hum of Some h \<Rightarrow> h | None \<Rightarrow> 50.0);
          ai_decision_text =
            (if irrigation_status
             then ''Irrigation required (Reason: '' @ ai_reason @ '')''
             else ''Irrigation not required'')
      in [(''temperature'', JNum temp_safe),
          (''humidity'', JNum hum_safe),
          (''soil_moisture'', JNum soil_pct),
          (''irrigation_status'', JBool irrigation_status),
          (''ai_decision'', JStr ai_decision_text)])"

text \<open>
  The outcome of \<^verbatim>\<open>requests.get(CONTROL_STATUS_ENDPOINT)\<close>: a
  \<^verbatim>\<open>RequestException\<close>, or a response with a status code and a JSON object in which
  each of the two keys may be missing.
\<close>

datatype http_result =
    RequestException
  | Response int "bool option" "bool option"

definition get_manual_control_status :: "http_result \<Rightarrow> bool \<times> bool" where
  "get_manual_control_status r =
     (case r of
        RequestException \<Rightarrow> (False, False)
      | Response status_code m p \<Rightarrow>
          if status_code = 200
          then (case m of Some b \<Rightarrow> b | None \<Rightarrow> False, case p of Some b \<Rightarrow> b | None \<Rightarrow> False)
          else (False, False))"

subsection \<open>State of the loop (lines 145-161)\<close>

text \<open>
  The buffers \<^verbatim>\<open>last30\<close> and \<^verbatim>\<open>last_soil\<close> feed only the feature row of the model and
  the CSV log; the model is opaque here (its output is an input of the tick), so they
  are left out.
\<close>

record loop_state =
  buf :: "int list"
  last_manual_enabled :: bool
  pump_on :: bool
  last_change :: real
  on_start :: real
  rest_until :: real
  hour_window_start :: real
  run_sec_this_hour :: int
  last_report_time :: real
  last_control_check :: real

text \<open>The four arguments are the four calls of \<^verbatim>\<open>time.time()\<close> at start-up.\<close>

definition initial :: "real \<Rightarrow> real \<Rightarrow> real \<Rightarrow> real \<Rightarrow> loop_state" where
  "initial t_change t_hour t_report t_check =
     \<lparr>buf = [], last_manual_enabled = False, pump_on = False, last_change = t_change,
      on_start = 0.0, rest_until = 0.0, hour_window_start = t_hour, run_sec_this_hour = 0,
      last_report_time = t_report, last_control_check = t_check\<rparr>"

record tick_env =
  now :: real
  read_adc :: "nat \<Rightarrow> int"
  temp :: "real option"
  hum :: "real option"
  predict_proba :: real
  control_response :: http_result

subsection \<open>The loop body, section by section (lines 173-284)\<close>

text \<open>Update of the hourly monitoring window (lines 177-179).\<close>

definition update_hour_window :: "real \<Rightarrow> loop_state \<Rightarrow> loop_state" where
  "update_hour_window t s =
     (if t - hour_window_start s \<ge> of_int HOURLY_BUCKET
      then s\<lparr>hour_window_start := t, run_sec_this_hour := 0\<rparr>
      else s)"

text \<open>
  \<^verbatim>\<open>statistics.median\<close>: the middle element of the sorted data, the mean of the two
  middle elements when the length is even, \<^verbatim>\<open>StatisticsError\<close> on no data.
  \<^verbatim>\<open>int(...)\<close> truncates towards zero.
\<close>

definition median :: "int list \<Rightarrow> error + real" where
  "median vals =
     (let data = sort vals; n = length data
      in if n = 0 then Inl StatisticsError
         else if n mod 2 = 1 then Inr (of_int (data ! (n div 2)))
         else Inr ((of_int (data ! (n div 2 - 1)) + of_int (data ! (n div 2))) / 2))"

definition py_int :: "real \<Rightarrow> int" where
  "py_int x = (if x \<ge> 0 then \<lfloor>x\<rfloor> else \<lceil>x\<rceil>)"

text \<open>\<^verbatim>\<open>deque(maxlen=n).append(x)\<close>: the oldest element is dropped when the deque is full.\<close>

definition deque_append :: "nat \<Rightarrow> 'a list \<Rightarrow> 'a \<Rightarrow> 'a list" where
  "deque_append maxlen d x = (let d' = d @ [x] in drop (length d' - maxlen) d')"

text \<open>Readings and processing (lines 182-186): the new buffer and the soil percentage.\<close>

definition readings :: "loop_state \<Rightarrow> tick_env \<Rightarrow> error + (int list \<times> real)" where
  "readings s env =
     (let vals = map (read_adc env) [0..<MEDIAN_N]
      in case median vals of
           Inl e \<Rightarrow> Inl e
         | Inr m \<Rightarrow>
             let med = py_int m;
                 buf' = deque_append AVG_WINDOW (buf s) med
             in if length buf' = 0 then Inl ZeroDivisionError
                else let adc_smooth = sum_list buf' div int (length buf')
                     in case adc_to_pct adc_smooth WET DRY of
                          Inl e \<Rightarrow> Inl e
                        | Inr soil \<Rightarrow> Inr (buf', soil))"

text \<open>
  Manual override check (lines 200-211): the two flags start at \<^verbatim>\<open>False\<close> on every
  iteration and are assigned only when a poll is due.
\<close>

definition manual_override_check ::
  "loop_state \<Rightarrow> tick_env \<Rightarrow> bool \<times> bool \<times> loop_state" where
  "manual_override_check s env =
     (let manual_enabled = False;
          pump_command_manual = False;
          (manual_enabled, pump_command_manual, s) =
            (if now env - last_control_check s \<ge> CONTROL_CHECK_INTERVAL
             then (fst (get_manual_control_status (control_response env)),
                   snd (get_manual_control_status (control_response env)),
                   s\<lparr>last_control_check := now env\<rparr>)
             else (manual_enabled, pump_command_manual, s));
          s = (if manual_enabled \<noteq> last_manual_enabled s
               then s\<lparr>last_manual_enabled := manual_enabled\<rparr> else s)
      in (manual_enabled, pump_command_manual, s))"

text \<open>
  The probability (lines 217-233). \<open>predict_proba env\<close> is what
  \<^verbatim>\<open>MODEL.predict_proba(X)[0,1]\<close> returns on this iteration's feature row.
\<close>

definition score :: "config \<Rightarrow> tick_env \<Rightarrow> real" where
  "score cfg env = (if MODEL cfg then predict_proba env else 0.0)"

text \<open>The decision and its reason (lines 235-246).\<close>

definition final_decision ::
  "real \<Rightarrow> real \<Rightarrow> real \<Rightarrow> real \<Rightarrow> bool \<Rightarrow> bool \<Rightarrow> bool \<times> string" where
  "final_decision proba threshold soil emergency_threshold manual_enabled pump_command_manual =
     (let decision_ai = (proba \<ge> threshold);
          decision_emg = (soil \<le> emergency_threshold)
      in if manual_enabled then (pump_command_manual, ''MANUAL'')
         else (decision_ai \<or> decision_emg,
               if decision_ai then ''AI'' else if decision_emg then ''EMERGENCY'' else ''NO''))"

text \<open>Turning the pump on (lines 248-258).\<close>

definition turn_on :: "real \<Rightarrow> bool \<Rightarrow> loop_state \<Rightarrow> loop_state \<times> bool list" where
  "turn_on t fd s =
     (let in_rest = (t < rest_until s)
      in if \<not> pump_on s \<and> fd \<and> \<not> in_rest \<and> t - last_change s \<ge> MIN_OFF_SEC
         then (if of_int (run_sec_this_hour s) / 60.0 < MAX_MIN_PER_HOUR
               then (s\<lparr>pump_on := True, on_start := t, last_change := t\<rparr>, [True])
               else (s, []))
         else (s, []))"

text \<open>
  Turning the pump off (lines 261-275). The third component is the message printed;
  the dash of the first message is written in ASCII.
\<close>

definition turn_off ::
  "real \<Rightarrow> bool \<Rightarrow> bool \<Rightarrow> loop_state \<Rightarrow> loop_state \<times> bool list \<times> string option" where
  "turn_off t manual_enabled pump_command_manual s =
     (let is_safety_cut_off = (pump_on s \<and> t - on_start s \<ge> MAX_ON_SEC);
          is_pulse_end = (pump_on s \<and> t - on_start s \<ge> BURST_ON_SEC);
          is_manual_off = (manual_enabled \<and> pump_on s \<and> \<not> pump_command_manual)
      in if (is_safety_cut_off \<or> is_pulse_end \<or> is_manual_off) \<and> t - last_change s \<ge> MIN_ON_SEC
         then (s\<lparr>pump_on := False, last_change := t, rest_until := t + REST_SEC\<rparr>,
               [False],
               Some (if is_safety_cut_off then ''Safety cutoff - forced OFF''
                     else if is_manual_off then ''Manual Command OFF received.''
                     else ''Pump OFF (pulse ended / soak period)''))
         else (s, [], None))"

text \<open>The hourly run counter (lines 278-279).\<close>

definition count_run :: "loop_state \<Rightarrow> loop_state" where
  "count_run s =
     (if pump_on s
      then s\<lparr>run_sec_this_hour := min HOURLY_BUCKET (run_sec_this_hour s + 1)\<rparr>
      else s)"

text \<open>Sending the report (lines 282-284).\<close>

definition send_report ::
  "loop_state \<Rightarrow> tick_env \<Rightarrow> real \<Rightarrow> string \<Rightarrow> loop_state \<times> payload option" where
  "send_report s env soil reason =
     (if now env - last_report_time s \<ge> REPORT_INTERVAL
      then (s\<lparr>last_report_time := now env\<rparr>,
            Some (send_sensor_data (temp env) (hum env) soil (pump_on s) reason))
      else (s, None))"

text \<open>What one iteration decides and writes.\<close>

record tick_out =
  out_soil :: real
  out_manual_enabled :: bool
  out_pump_command_manual :: bool
  out_proba :: real
  out_decision :: bool
  out_reason :: string
  relay_writes :: "bool list"
  off_message :: "string option"
  report :: "payload option"

text \<open>One iteration of the \<^verbatim>\<open>while True\<close> loop.\<close>

definition tick :: "config \<Rightarrow> loop_state \<Rightarrow> tick_env \<Rightarrow> error + (loop_state \<times> tick_out)" where
  "tick cfg s env =
     (let s1 = update_hour_window (now env) s
      in case readings s1 env of
           Inl e \<Rightarrow> Inl e
         | Inr (buf', soil) \<Rightarrow>
             let s2 = s1\<lparr>buf := buf'\<rparr>;
                 (manual_enabled, pump_command_manual, s3) = manual_override_check s2 env;
                 proba = score cfg env;
                 (fd, reason) =
                   final_decision proba (THRESH cfg) soil EMERGENCY_ON_PCT
                     manual_enabled pump_command_manual;
                 (s4, w_on) = turn_on (now env) fd s3;
                 (s5, w_off, msg) = turn_off (now env) manual_enabled pump_command_manual s4;
                 s6 = count_run s5;
                 (s7, rep) = send_report s6 env soil reason
             in Inr (s7,
                     \<lparr>out_soil = soil, out_manual_enabled = manual_enabled,
                      out_pump_command_manual = pump_command_manual,
                      out_proba = proba, out_decision = fd, out_reason = reason,
                      relay_writes = w_on @ w_off, off_message = msg, report = rep\<rparr>))"

text \<open>
  A run of the loop over the environments of successive iterations: the list of the
  states before the first iteration and after each one, and the list of the outputs.
  An uncaught exception ends the run.
\<close>

fun states :: "config \<Rightarrow> loop_state \<Rightarrow> tick_env list \<Rightarrow> loop_state list" where
  "states cfg s [] = [s]"
| "states cfg s (e # es) =
     s # (case tick cfg s e of Inl _ \<Rightarrow> [] | Inr (s', _) \<Rightarrow> states cfg s' es)"

fun outs :: "config \<Rightarrow> loop_state \<Rightarrow> tick_env list \<Rightarrow> tick_out list" where
  "outs cfg s [] = []"
| "outs cfg s (e # es) =
     (case tick cfg s e of Inl _ \<Rightarrow> [] | Inr (s', out) \<Rightarrow> out # outs cfg s' es)"

section \<open>The backend (app.py)\<close>

subsection \<open>Sensor data schema (lines 78-83)\<close>

text \<open>
  The body of \<^verbatim>\<open>POST /data/sensor/\<close> is validated against \<^verbatim>\<open>SensorDataCreate\<close>, which
  has the fields of \<^verbatim>\<open>SensorDataBase\<close>. A missing field or a value of another JSON type
  is a validation error; the coercions that the validation library applies to values
  of other types are not modelled.
\<close>

record SensorDataBase =
  temperature :: real
  humidity :: real
  soil_moisture :: real
  irrigation_status :: bool
  ai_decision :: string

definition float_field :: "payload \<Rightarrow> string \<Rightarrow> error + real" where
  "float_field body k = (case map_of body k of Some (JNum x) \<Rightarrow> Inr x | _ \<Rightarrow> Inl ValidationError)"

definition bool_field :: "payload \<Rightarrow> string \<Rightarrow> error + bool" where
  "bool_field body k = (case map_of body k of Some (JBool b) \<Rightarrow> Inr b | _ \<Rightarrow> Inl ValidationError)"

definition str_field :: "payload \<Rightarrow> string \<Rightarrow> error + string" where
  "str_field body k = (case map_of body k of Some (JStr s) \<Rightarrow> Inr s | _ \<Rightarrow> Inl ValidationError)"

definition parse_SensorDataBase :: "payload \<Rightarrow> error + SensorDataBase" where
  "parse_SensorDataBase body =
     (case float_field body ''temperature'' of Inl e \<Rightarrow> Inl e | Inr t \<Rightarrow>
      case float_field body ''humidity'' of Inl e \<Rightarrow> Inl e | Inr h \<Rightarrow>
      case float_field body ''soil_moisture'' of Inl e \<Rightarrow> Inl e | Inr m \<Rightarrow>
      case bool_field body ''irrigation_status'' of Inl e \<Rightarrow> Inl e | Inr i \<Rightarrow>
      case str_field body ''ai_decision'' of Inl e \<Rightarrow> Inl e | Inr a \<Rightarrow>
        Inr \<lparr>temperature = t, humidity = h, soil_moisture = m, irrigation_status = i,
             ai_decision = a\<rparr>)"

subsection \<open>Manual control (lines 63-69, 112-122, 139-156, 258-270)\<close>

text \<open>
  The table \<^verbatim>\<open>manual_control\<close> as a map from the primary key to the row. The second
  argument of the operations is the database clock, which fills \<^verbatim>\<open>timestamp\<close>
  (\<^verbatim>\<open>server_default=func.now()\<close>, \<^verbatim>\<open>onupdate=func.now()\<close>).
\<close>

record DBManualControl =
  mc_id :: int
  mc_manual_enabled :: bool
  mc_pump_command :: bool
  mc_timestamp :: real

type_synonym manual_control_table = "int \<rightharpoonup> DBManualControl"

definition get_manual_control ::
  "manual_control_table \<Rightarrow> real \<Rightarrow> DBManualControl \<times> manual_control_table" where
  "get_manual_control db clock =
     (case db 1 of
        Some status \<Rightarrow> (status, db)
      | None \<Rightarrow>
          let status = \<lparr>mc_id = 1, mc_manual_enabled = False, mc_pump_command = False,
                        mc_timestamp = clock\<rparr>
          in (status, db(1 \<mapsto> status)))"

definition update_manual_control ::
  "manual_control_table \<Rightarrow> real \<Rightarrow> bool \<Rightarrow> bool \<Rightarrow> DBManualControl \<times> manual_control_table" where
  "update_manual_control db clock manual_enabled pump_command =
     (let (status, db) = get_manual_control db clock;
          changed = (mc_manual_enabled status \<noteq> manual_enabled
                     \<or> mc_pump_command status \<noteq> pump_command);
          status = status\<lparr>mc_manual_enabled := manual_enabled, mc_pump_command := pump_command,
                          mc_timestamp := (if changed then clock else mc_timestamp status)\<rparr>
      in (status, db(1 \<mapsto> status)))"

record ManualControlStatus =
  manual_enabled :: bool
  pump_command :: bool
  timestamp :: real

definition response_model :: "DBManualControl \<Rightarrow> ManualControlStatus" where
  "response_model status =
     \<lparr>manual_enabled = mc_manual_enabled status, pump_command = mc_pump_command status,
      timestamp = mc_timestamp status\<rparr>"

text \<open>
  The two control routes: \<^verbatim>\<open>GET /control/status/\<close> and \<^verbatim>\<open>PUT /control/manual/\<close>, and
  a server that answers a list of requests, each with the clock at which it arrives.
\<close>

datatype request = GetControlStatus | PutControlManual bool bool

definition endpoint ::
  "manual_control_table \<Rightarrow> real \<Rightarrow> request \<Rightarrow> ManualControlStatus \<times> manual_control_table" where
  "endpoint db clock req =
     (case req of
        GetControlStatus \<Rightarrow>
          (response_model (fst (get_manual_control db clock)), snd (get_manual_control db clock))
      | PutControlManual m p \<Rightarrow>
          (response_model (fst (update_manual_control db clock m p)),
           snd (update_manual_control db clock m p)))"

fun serve ::
  "manual_control_table \<Rightarrow> (real \<times> request) list \<Rightarrow> ManualControlStatus list" where
  "serve db [] = []"
| "serve db ((clock, req) # rest) =
     fst (endpoint db clock req) # serve (snd (endpoint db clock req)) rest"

section \<open>Auxiliary notions\<close>

text \<open>The exact quotient that \<open>adc_to_pct\<close> rounds, at the calibration 233 / 619.\<close>

definition exact_pct :: "int \<Rightarrow> real" where
  "exact_pct v = 100 * of_int (619 - max (min v 619) 233) / of_int (619 - 233)"

text \<open>A poll of the control endpoint is due; a poll succeeds.\<close>

definition poll_due :: "loop_state \<Rightarrow> tick_env \<Rightarrow> bool" where
  "poll_due s env = (now env - last_control_check s \<ge> CONTROL_CHECK_INTERVAL)"

definition poll_succeeds :: "http_result \<Rightarrow> bool" where
  "poll_succeeds r = (case r of RequestException \<Rightarrow> False | Response status_code _ _ \<Rightarrow> status_code = 200)"

text \<open>The part of the state that the pump control reads and writes, and its three steps.\<close>

definition pump_view :: "loop_state \<Rightarrow> bool \<times> real \<times> real \<times> real \<times> real \<times> int" where
  "pump_view s = (pump_on s, last_change s, on_start s, rest_until s, hour_window_start s, run_sec_this_hour s)"

definition actuate :: "real \<Rightarrow> bool \<Rightarrow> bool \<Rightarrow> bool \<Rightarrow> loop_state \<Rightarrow> loop_state" where
  "actuate t fd m c s = count_run (fst (turn_off t m c (fst (turn_on t fd s))))"

text \<open>The guards of the two transitions, as the conditions of lines 253-254 and 265.\<close>

definition may_switch_on :: "real \<Rightarrow> bool \<Rightarrow> loop_state \<Rightarrow> bool" where
  "may_switch_on t fd s =
     (fd \<and> rest_until s \<le> t \<and> MIN_OFF_SEC \<le> t - last_change s
      \<and> of_int (run_sec_this_hour s) / 60 < MAX_MIN_PER_HOUR)"

definition must_switch_off :: "real \<Rightarrow> bool \<Rightarrow> bool \<Rightarrow> loop_state \<Rightarrow> bool" where
  "must_switch_off t m c s =
     ((MAX_ON_SEC \<le> t - on_start s \<or> BURST_ON_SEC \<le> t - on_start s \<or> (m \<and> \<not> c))
      \<and> MIN_ON_SEC \<le> t - last_change s)"

text \<open>A table whose row 1, if there is one, is the default one.\<close>

definition default_row :: "manual_control_table \<Rightarrow> bool" where
  "default_row db =
     (case db 1 of None \<Rightarrow> True
      | Some status \<Rightarrow> \<not> mc_manual_enabled status \<and> \<not> mc_pump_command status)"

text \<open>
  Sample runs. In \<open>sample_env t a p r\<close> the clock reads \<open>t\<close>, every ADC sample is \<open>a\<close>,
  the DHT22 read fails, the model would answer \<open>p\<close> and the control endpoint answers \<open>r\<close>.
\<close>

definition sample_env :: "real \<Rightarrow> int \<Rightarrow> real \<Rightarrow> http_result \<Rightarrow> tick_env" where
  "sample_env t a p r =
     \<lparr>now = t, read_adc = (\<lambda>_. a), temp = None, hum = None, predict_proba = p,
      control_response = r\<rparr>"

definition loaded_cfg :: config where "loaded_cfg = \<lparr>MODEL = True, THRESH = 0.06\<rparr>"

definition fallback_cfg :: config where "fallback_cfg = \<lparr>MODEL = False, THRESH = 0\<rparr>"

definition wet_envs :: "tick_env list" where
  "wet_envs = [sample_env 3 233 0.9 RequestException]"

definition dry_run_envs :: "tick_env list" where
  "dry_run_envs = [sample_env 3 619 0 RequestException, sample_env 9 619 0 RequestException,
     sample_env 12 619 0 RequestException, sample_env 15 619 0 RequestException]"

definition burst_envs :: "tick_env list" where
  "burst_envs = [sample_env 3 619 0 RequestException, sample_env 4.5 619 0 RequestException,
     sample_env 6 619 0 RequestException, sample_env 7.5 619 0 RequestException,
     sample_env 9 619 0 RequestException]"

definition cutoff_envs :: "tick_env list" where
  "cutoff_envs = [sample_env 3 619 0 RequestException, sample_env 70 619 0 RequestException]"

definition poll_envs :: "tick_env list" where
  "poll_envs =
     [sample_env 3 619 0 (Response 200 (Some True) (Some True)),
      sample_env 4.5 619 0 (Response 200 (Some True) (Some True)),
      sample_env 6 619 0 RequestException]"

definition manual_off_envs :: "tick_env list" where
  "manual_off_envs =
     [sample_env 3 619 0 (Response 200 (Some False) (Some False)),
      sample_env 4.6 619 0 (Response 200 (Some True) (Some False)),
      sample_env 6.2 619 0 (Response 200 (Some True) (Some False)),
      sample_env 7.8 619 0 (Response 200 (Some True) (Some False)),
      sample_env 9.4 619 0 (Response 200 (Some True) (Some False)),
      sample_env 12.6 619 0 (Response 200 (Some True) (Some False))]"

text \<open>
  The time the pump has been on in the course of a run started at time \<open>t\<close>, as the
  iterations see it: the pump changes state only at an iteration, so between two
  iterations it is in the state that the earlier one left.
\<close>

fun on_time :: "real \<Rightarrow> loop_state list \<Rightarrow> tick_env list \<Rightarrow> real" where
  "on_time t (s # ss) (e # es) = (if pump_on s then now e - t else 0) + on_time (now e) ss es"
| "on_time t _ _ = 0"

text \<open>
  A run through a network outage with dry soil: the poll and the report both run into
  their timeout of 15 seconds on every iteration, so with the sleep of 1.5 seconds the
  iterations are 31.5 seconds apart.
\<close>

definition outage_envs :: "tick_env list" where
  "outage_envs = map (\<lambda>k. sample_env (63 / 2 * of_nat k) 619 0 RequestException) [1..<34]"

definition get_only :: "(real \<times> request) list" where
  "get_only = [(0, GetControlStatus), (5, GetControlStatus)]"

section \<open>Properties\<close>

subsection \<open>Rounding and the soil percentage\<close>

lemma round_half_even_bounds:
  "\<lfloor>y\<rfloor> \<le> round_half_even y" "round_half_even y \<le> \<lfloor>y\<rfloor> + 1"
  by (simp_all add: round_half_even_def Let_def)

lemma round_half_even_mono:
  assumes "x \<le> y"
  shows "round_half_even x \<le> round_half_even y"
proof (cases "\<lfloor>x\<rfloor> = \<lfloor>y\<rfloor>")
  case True
  then have "x - of_int \<lfloor>x\<rfloor> \<le> y - of_int \<lfloor>y\<rfloor>" using assms by simp
  with True show ?thesis
    by (auto simp: round_half_even_def Let_def)
next
  case False
  have "\<lfloor>x\<rfloor> \<le> \<lfloor>y\<rfloor>" using assms by (rule floor_mono)
  with False have "\<lfloor>x\<rfloor> + 1 \<le> \<lfloor>y\<rfloor>" by simp
  with round_half_even_bounds(2)[of x] round_half_even_bounds(1)[of y]
  show ?thesis by linarith
qed

lemma round_half_even_of_int: "round_half_even (of_int k) = k"
  by (simp add: round_half_even_def)

lemma py_round_mono: "x \<le> y \<Longrightarrow> py_round x n \<le> py_round y n"
  unfolding py_round_def
  by (intro divide_right_mono round_half_even_mono mult_right_mono iffD2[OF of_int_le_iff])
     simp_all

lemma py_round_of_int: "py_round (of_int k) n = of_int k"
proof -
  have "(of_int k :: real) * 10 ^ n = of_int (k * 10 ^ n)" by simp
  then have "round_half_even (of_int k * 10 ^ n) = k * 10 ^ n"
    by (simp only: round_half_even_of_int)
  then show ?thesis by (simp add: py_round_def)
qed

lemma py_round_values: "py_round 100 n = 100" "py_round 0 n = 0" "py_round 50 n = 50"
  using py_round_of_int[of 100 n] py_round_of_int[of 0 n] py_round_of_int[of 50 n]
  by simp_all

lemma py_round_range:
  assumes "0 \<le> x" "x \<le> 100"
  shows "0 \<le> py_round x n \<and> py_round x n \<le> 100"
  using py_round_mono[OF assms(1), of n] py_round_mono[OF assms(2), of n]
    py_round_of_int[of 0 n] py_round_of_int[of 100 n]
  by simp

lemma adc_to_pct_exact: "adc_to_pct v 233 619 = Inr (py_round (exact_pct v) 1)"
  by (simp add: adc_to_pct_def exact_pct_def Let_def)

lemma exact_pct_range: "0 \<le> exact_pct v" "exact_pct v \<le> 100"
  by (simp_all add: exact_pct_def)

lemma exact_pct_antimono: "v \<le> v' \<Longrightarrow> exact_pct v' \<le> exact_pct v"
  by (simp add: exact_pct_def divide_right_mono)

lemma exact_pct_values:
  "v \<le> 233 \<Longrightarrow> exact_pct v = 100" "619 \<le> v \<Longrightarrow> exact_pct v = 0" "exact_pct 426 = 50"
  by (simp_all add: exact_pct_def)

text \<open>
  No raw value puts the scaled quotient on a tie, so the result does not depend on the
  tie rule, nor on the last bit of the floating-point quotient.
\<close>

lemma exact_pct_no_tie:
  "exact_pct v * 10 - of_int \<lfloor>exact_pct v * 10\<rfloor> \<noteq> 1 / 2"
proof
  define c where "c = 619 - max (min v 619) 233"
  define k where "k = \<lfloor>exact_pct v * 10\<rfloor>"
  assume "exact_pct v * 10 - of_int \<lfloor>exact_pct v * 10\<rfloor> = 1 / 2"
  then have tie: "exact_pct v * 10 = of_int k + 1 / 2" by (simp add: k_def)
  have "exact_pct v * 10 = of_int (1000 * c) / 386"
    by (simp add: exact_pct_def c_def)
  with tie have "(of_int (1000 * c) :: real) / 386 = of_int k + 1 / 2"
    by simp
  then have "(of_int (2000 * c) :: real) = of_int (386 * (2 * k + 1))"
    by (simp add: field_simps)
  then have "2000 * c = 386 * (2 * k + 1)"
    by (simp only: of_int_eq_iff)
  then have eq: "1000 * c = 386 * k + 193" by simp
  have "even (1000 * c)" by simp
  moreover have "odd (386 * k + 193)" by simp
  ultimately show False using eq by simp
qed

lemma round_half_even_near: "\<bar>of_int (round_half_even y) - y\<bar> \<le> 1 / 2"
proof -
  have "0 \<le> y - of_int \<lfloor>y\<rfloor>" "y - of_int \<lfloor>y\<rfloor> < 1" by linarith+
  then show ?thesis by (auto simp: round_half_even_def Let_def)
qed

lemma round_half_even_near_strict:
  assumes "y - of_int \<lfloor>y\<rfloor> \<noteq> 1 / 2"
  shows "\<bar>of_int (round_half_even y) - y\<bar> < 1 / 2"
proof -
  have "0 \<le> y - of_int \<lfloor>y\<rfloor>" "y - of_int \<lfloor>y\<rfloor> < 1" by linarith+
  with assms show ?thesis by (auto simp: round_half_even_def Let_def)
qed

lemma round_half_even_half_up:
  assumes "y - of_int \<lfloor>y\<rfloor> \<noteq> 1 / 2"
  shows "round_half_even y = \<lfloor>y + 1 / 2\<rfloor>"
proof -
  from round_half_even_near_strict[OF assms]
  have "of_int (round_half_even y) \<le> y + 1 / 2" "y + 1 / 2 < of_int (round_half_even y) + 1"
    by linarith+
  then show ?thesis by (simp add: floor_unique)
qed

lemma exact_pct_tenths:
  "exact_pct v * 10 = of_int (1000 * (619 - max (min v 619) 233)) / of_int 386"
  by (simp add: exact_pct_def)

lemma round_exact_pct:
  "round_half_even (exact_pct v * 10) = (1000 * (619 - max (min v 619) 233) + 193) div 386"
proof -
  let ?a = "1000 * (619 - max (min v 619) 233)"
  have "exact_pct v * 10 + 1 / 2 = of_int (?a + 193) / of_int 386"
    by (simp add: exact_pct_def field_simps)
  then have "\<lfloor>exact_pct v * 10 + 1 / 2\<rfloor> = (?a + 193) div 386"
    by (simp only: floor_divide_of_int_eq)
  with round_half_even_half_up[OF exact_pct_no_tie, of v] show ?thesis by simp
qed

lemma adc_to_pct_explicit:
  "adc_to_pct v 233 619
     = Inr (of_int ((1000 * (619 - max (min v 619) 233) + 193) div 386) / 10)"
  by (simp add: adc_to_pct_exact py_round_def round_exact_pct)

lemma adc_to_pct_nearest:
  "\<bar>py_round (exact_pct v) 1 - exact_pct v\<bar> < 1 / 20"
proof -
  from round_half_even_near_strict[OF exact_pct_no_tie, of v]
  have "\<bar>of_int (round_half_even (exact_pct v * 10)) - exact_pct v * 10\<bar> < 1 / 2" .
  then have "\<bar>of_int (round_half_even (exact_pct v * 10)) / 10 - exact_pct v\<bar> < 1 / 20"
    by (simp add: abs_if split: if_splits)
  then show ?thesis by (simp add: py_round_def)
qed

text \<open>
  \<^bold>\<open>C6.\<close> For every raw ADC integer, the soil-percentage mapping at \<open>wet = 233\<close>,
  \<open>dry = 619\<close> clamps the raw value into \<open>[233, 619]\<close> and returns
  \<open>100 * (dry - clamped) / (dry - wet)\<close> rounded to one decimal: the result is a whole
  number of tenths, less than half a tenth away from the quotient, namely
  \<open>(1000 * (dry - clamped) + 193) div 386\<close> tenths. Raw 233 (and below) gives 100.0,
  raw 619 (and above) gives 0.0, raw 426 gives 50.0, raw 300 gives 82.6, the result lies
  in \<open>[0, 100]\<close>, and the mapping is non-increasing in the raw value.
\<close>

theorem adc_to_pct_calibrated:
  "233 \<le> max (min v 619) 233 \<and> max (min v 619) 233 \<le> 619
   \<and> (\<exists>k::int. adc_to_pct v 233 619 = Inr (of_int k / 10)
         \<and> \<bar>of_int k / 10 - (100::real) * of_int (619 - max (min v 619) 233) / of_int (619 - 233)\<bar>
             < 1 / 20)
   \<and> adc_to_pct v 233 619
       = Inr (of_int ((1000 * (619 - max (min v 619) 233) + 193) div 386) / 10)
   \<and> adc_to_pct 233 233 619 = Inr 100
   \<and> adc_to_pct 619 233 619 = Inr 0
   \<and> adc_to_pct 426 233 619 = Inr 50
   \<and> adc_to_pct 300 233 619 = Inr 82.6
   \<and> (v \<le> 233 \<longrightarrow> adc_to_pct v 233 619 = Inr 100)
   \<and> (619 \<le> v \<longrightarrow> adc_to_pct v 233 619 = Inr 0)
   \<and> (\<exists>p. adc_to_pct v 233 619 = Inr p \<and> 0 \<le> p \<and> p \<le> 100)
   \<and> (\<forall>v'. v \<le> v' \<longrightarrow>
         (\<exists>p p'. adc_to_pct v 233 619 = Inr p \<and> adc_to_pct v' 233 619 = Inr p' \<and> p' \<le> p))"
proof -
  note r = py_round_values
  have b: "233 \<le> max (min v 619) 233 \<and> max (min v 619) 233 \<le> 619" by simp
  have x: "adc_to_pct v 233 619
       = Inr (of_int ((1000 * (619 - max (min v 619) 233) + 193) div 386) / 10)"
    by (rule adc_to_pct_explicit)
  have "adc_to_pct v 233 619 = Inr (of_int (round_half_even (exact_pct v * 10)) / 10)
        \<and> \<bar>of_int (round_half_even (exact_pct v * 10)) / 10 - exact_pct v\<bar> < 1 / 20"
    using adc_to_pct_nearest[of v] by (simp add: adc_to_pct_exact py_round_def)
  then have n: "\<exists>k::int. adc_to_pct v 233 619 = Inr (of_int k / 10)
         \<and> \<bar>of_int k / 10 - (100::real) * of_int (619 - max (min v 619) 233) / of_int (619 - 233)\<bar>
             < 1 / 20"
    unfolding exact_pct_def by blast
  have c: "adc_to_pct 233 233 619 = Inr 100" "adc_to_pct 619 233 619 = Inr 0"
    "adc_to_pct 426 233 619 = Inr 50"
    by (simp_all add: adc_to_pct_exact exact_pct_values r)
  have c': "adc_to_pct 300 233 619 = Inr 82.6"
    by (simp add: adc_to_pct_explicit)
  have d: "v \<le> 233 \<longrightarrow> adc_to_pct v 233 619 = Inr 100"
    "619 \<le> v \<longrightarrow> adc_to_pct v 233 619 = Inr 0"
    by (simp_all add: adc_to_pct_exact exact_pct_values r)
  have e: "\<exists>p. adc_to_pct v 233 619 = Inr p \<and> 0 \<le> p \<and> p \<le> 100"
    using py_round_range[OF exact_pct_range, of v 1] by (simp add: adc_to_pct_exact)
  have f: "\<forall>v'. v \<le> v' \<longrightarrow>
         (\<exists>p p'. adc_to_pct v 233 619 = Inr p \<and> adc_to_pct v' 233 619 = Inr p' \<and> p' \<le> p)"
    by (simp add: adc_to_pct_exact py_round_mono exact_pct_antimono)
  from b n x c c' d e f show ?thesis by blast
qed

theorem adc_to_pct_calibrated_witness:
  "(300::int) \<le> 400
   \<and> (\<exists>p p'. adc_to_pct 300 233 619 = Inr p \<and> adc_to_pct 400 233 619 = Inr p' \<and> p' \<le> p)
   \<and> (100::int) \<le> 233 \<and> adc_to_pct 100 233 619 = Inr 100
   \<and> (619::int) \<le> 1023 \<and> adc_to_pct 1023 233 619 = Inr 0
   \<and> adc_to_pct 500 233 619 = Inr 30.8"
proof -
  have h: "(300::int) \<le> 400" "(100::int) \<le> 233" "(619::int) \<le> 1023" by simp_all
  from adc_to_pct_calibrated[of 300] h(1)
  have a: "\<exists>p p'. adc_to_pct 300 233 619 = Inr p \<and> adc_to_pct 400 233 619 = Inr p' \<and> p' \<le> p"
    by blast
  from adc_to_pct_calibrated[of 100] h(2) have b: "adc_to_pct 100 233 619 = Inr 100"
    by blast
  from adc_to_pct_calibrated[of 1023] h(3) have c: "adc_to_pct 1023 233 619 = Inr 0"
    by blast
  from adc_to_pct_calibrated[of 500]
  have "adc_to_pct 500 233 619
       = Inr (of_int ((1000 * (619 - max (min 500 619) 233) + 193) div 386) / 10)"
    by blast
  then have d: "adc_to_pct 500 233 619 = Inr 30.8" by simp
  from h a b c d show ?thesis by blast
qed

subsection \<open>One iteration never raises\<close>

text \<open>
  The three places of the readings section that could raise (the median of no samples,
  the mean of an empty buffer, a calibration with \<open>dry = wet\<close>) are unreachable: nine
  samples are always taken, the buffer has just been appended to, and the calibration
  is 233 / 619.
\<close>

lemma median_nonempty:
  assumes "vals \<noteq> []"
  shows "\<exists>m. median vals = Inr m"
proof -
  have ex: "\<exists>m. (if c then Inr a else Inr b) = (Inr m :: error + real)" for c a b
    by (cases c) simp_all
  have "length (sort vals) \<noteq> 0" using assms by simp
  then show ?thesis
    unfolding median_def Let_def using ex by (simp only: if_False)
qed

lemma deque_append_nonempty: "0 < maxlen \<Longrightarrow> deque_append maxlen d x \<noteq> []"
  by (simp add: deque_append_def Let_def)

lemma readings_ok: "\<exists>b p. readings s env = Inr (b, p)"
proof -
  have "map (read_adc env) [0..<MEDIAN_N] \<noteq> []" by (simp add: MEDIAN_N_def)
  then obtain m where m: "median (map (read_adc env) [0..<MEDIAN_N]) = Inr m"
    using median_nonempty by blast
  have ne: "deque_append AVG_WINDOW (buf s) (py_int m) \<noteq> []"
    by (rule deque_append_nonempty) (simp add: AVG_WINDOW_def)
  show ?thesis
    using m ne by (simp add: readings_def Let_def adc_to_pct_def WET_def DRY_def)
qed

lemma tick_total: "\<exists>s' out. tick cfg s env = Inr (s', out)"
proof -
  obtain b p where "readings (update_hour_window (now env) s) env = Inr (b, p)"
    using readings_ok by blast
  then show ?thesis
    by (simp add: tick_def Let_def case_prod_beta)
qed

subsection \<open>What each section of the loop body changes\<close>

lemma manual_override_check_flags:
  "fst (manual_override_check s env) =
     (poll_due s env \<and> fst (get_manual_control_status (control_response env)))"
  "fst (snd (manual_override_check s env)) =
     (poll_due s env \<and> snd (get_manual_control_status (control_response env)))"
  by (simp_all add: manual_override_check_def poll_due_def Let_def)

lemma manual_override_check_state:
  "snd (snd (manual_override_check s env)) =
     s\<lparr>last_control_check := (if poll_due s env then now env else last_control_check s),
       last_manual_enabled := fst (manual_override_check s env)\<rparr>"
  by (simp add: manual_override_check_def poll_due_def Let_def)

lemma send_report_state:
  "fst (send_report s env sp r) =
     s\<lparr>last_report_time :=
         (if now env - last_report_time s \<ge> REPORT_INTERVAL then now env else last_report_time s)\<rparr>"
  by (simp add: send_report_def)

lemma pump_view_update_hour_window:
  "pump_view s = pump_view s' \<Longrightarrow> pump_view (update_hour_window t s) = pump_view (update_hour_window t s')"
  by (simp add: pump_view_def update_hour_window_def)

lemma pump_view_turn_on:
  "pump_view s = pump_view s' \<Longrightarrow> pump_view (fst (turn_on t fd s)) = pump_view (fst (turn_on t fd s'))"
  by (auto simp: pump_view_def turn_on_def Let_def)

lemma pump_view_turn_off:
  "pump_view s = pump_view s' \<Longrightarrow> pump_view (fst (turn_off t m c s)) = pump_view (fst (turn_off t m c s'))"
  by (auto simp: pump_view_def turn_off_def Let_def)

lemma pump_view_count_run:
  "pump_view s = pump_view s' \<Longrightarrow> pump_view (count_run s) = pump_view (count_run s')"
  by (simp add: pump_view_def count_run_def)

lemma pump_view_actuate:
  "pump_view s = pump_view s' \<Longrightarrow> pump_view (actuate t fd m c s) = pump_view (actuate t fd m c s')"
  unfolding actuate_def
  by (intro pump_view_count_run pump_view_turn_off pump_view_turn_on)

lemma pump_view_turn_on_out:
  "pump_view s = pump_view s' \<Longrightarrow> snd (turn_on t fd s) = snd (turn_on t fd s')"
  by (auto simp: pump_view_def turn_on_def Let_def)

lemma pump_view_turn_off_out:
  "pump_view s = pump_view s' \<Longrightarrow> snd (turn_off t m c s) = snd (turn_off t m c s')"
  by (auto simp: pump_view_def turn_off_def Let_def)

lemma pump_view_send_report: "pump_view (fst (send_report s env sp r)) = pump_view s"
  by (simp add: send_report_state pump_view_def)

lemma pump_view_manual_override_check:
  "pump_view (snd (snd (manual_override_check s env))) = pump_view s"
  by (simp add: manual_override_check_state pump_view_def)

lemma pump_view_buf: "pump_view (s\<lparr>buf := b\<rparr>) = pump_view s"
  by (simp add: pump_view_def)

lemma frame_update_hour_window:
  "last_control_check (update_hour_window t s) = last_control_check s"
  "last_report_time (update_hour_window t s) = last_report_time s"
  by (simp_all add: update_hour_window_def)

lemma frame_actuate:
  "last_control_check (actuate t fd m c s) = last_control_check s"
  "last_report_time (actuate t fd m c s) = last_report_time s"
  by (simp_all add: actuate_def count_run_def turn_off_def turn_on_def Let_def)

lemma poll_due_frame:
  "last_control_check s = last_control_check s' \<Longrightarrow> poll_due s env = poll_due s' env"
  by (simp add: poll_due_def)

lemma pump_viewD:
  assumes "pump_view a = pump_view b"
  shows "pump_on a = pump_on b" "last_change a = last_change b" "on_start a = on_start b"
    "rest_until a = rest_until b" "hour_window_start a = hour_window_start b"
    "run_sec_this_hour a = run_sec_this_hour b"
  using assms by (simp_all add: pump_view_def)

subsection \<open>A successful iteration, field by field\<close>

lemma tick_Inr:
  assumes "tick cfg s env = Inr (s', out)"
  obtains b sp m c s3 fd why where
    "readings (update_hour_window (now env) s) env = Inr (b, sp)"
    "m = fst (manual_override_check (update_hour_window (now env) s\<lparr>buf := b\<rparr>) env)"
    "c = fst (snd (manual_override_check (update_hour_window (now env) s\<lparr>buf := b\<rparr>) env))"
    "s3 = snd (snd (manual_override_check (update_hour_window (now env) s\<lparr>buf := b\<rparr>) env))"
    "(fd, why) = final_decision (score cfg env) (THRESH cfg) sp EMERGENCY_ON_PCT m c"
    "s' = fst (send_report (actuate (now env) fd m c s3) env sp why)"
    "out = \<lparr>out_soil = sp, out_manual_enabled = m, out_pump_command_manual = c,
            out_proba = score cfg env, out_decision = fd, out_reason = why,
            relay_writes = snd (turn_on (now env) fd s3)
                           @ fst (snd (turn_off (now env) m c (fst (turn_on (now env) fd s3)))),
            off_message = snd (snd (turn_off (now env) m c (fst (turn_on (now env) fd s3)))),
            report = snd (send_report (actuate (now env) fd m c s3) env sp why)\<rparr>"
proof -
  obtain b sp where r: "readings (update_hour_window (now env) s) env = Inr (b, sp)"
    using readings_ok by blast
  from assms have eq: "Inr (s', out) = tick cfg s env" by simp
  show thesis
    apply (rule that[OF r refl refl refl])
    using eq unfolding tick_def Let_def r actuate_def
    by (simp_all only: sum.case prod.case case_prod_beta sum.inject prod.inject
        fst_conv snd_conv prod.collapse)
qed

lemma tick_facts:
  assumes "tick cfg s env = Inr (s', out)"
  shows tick_manual_enabled:
      "out_manual_enabled out =
         (poll_due s env \<and> fst (get_manual_control_status (control_response env)))"
    and tick_pump_command_manual:
      "out_pump_command_manual out =
         (poll_due s env \<and> snd (get_manual_control_status (control_response env)))"
    and tick_decision:
      "(out_decision out, out_reason out) =
         final_decision (out_proba out) (THRESH cfg) (out_soil out) EMERGENCY_ON_PCT
           (out_manual_enabled out) (out_pump_command_manual out)"
    and tick_proba: "out_proba out = score cfg env"
    and tick_pump:
      "pump_view s' =
         pump_view (actuate (now env) (out_decision out) (out_manual_enabled out)
                      (out_pump_command_manual out) (update_hour_window (now env) s))"
    and tick_last_control_check:
      "last_control_check s' = (if poll_due s env then now env else last_control_check s)"
    and tick_relay_writes:
      "relay_writes out =
         snd (turn_on (now env) (out_decision out) (update_hour_window (now env) s))
         @ fst (snd (turn_off (now env) (out_manual_enabled out) (out_pump_command_manual out)
                  (fst (turn_on (now env) (out_decision out) (update_hour_window (now env) s)))))"
    and tick_off_message:
      "off_message out =
         snd (snd (turn_off (now env) (out_manual_enabled out) (out_pump_command_manual out)
                  (fst (turn_on (now env) (out_decision out) (update_hour_window (now env) s)))))"
proof -
  let ?s1 = "update_hour_window (now env) s"
  from assms obtain b sp m c s3 fd why where
    r: "readings ?s1 env = Inr (b, sp)"
    and m: "m = fst (manual_override_check (?s1\<lparr>buf := b\<rparr>) env)"
    and c: "c = fst (snd (manual_override_check (?s1\<lparr>buf := b\<rparr>) env))"
    and s3: "s3 = snd (snd (manual_override_check (?s1\<lparr>buf := b\<rparr>) env))"
    and fd: "(fd, why) = final_decision (score cfg env) (THRESH cfg) sp EMERGENCY_ON_PCT m c"
    and s': "s' = fst (send_report (actuate (now env) fd m c s3) env sp why)"
    and out: "out = \<lparr>out_soil = sp, out_manual_enabled = m, out_pump_command_manual = c,
            out_proba = score cfg env, out_decision = fd, out_reason = why,
            relay_writes = snd (turn_on (now env) fd s3)
                           @ fst (snd (turn_off (now env) m c (fst (turn_on (now env) fd s3)))),
            off_message = snd (snd (turn_off (now env) m c (fst (turn_on (now env) fd s3)))),
            report = snd (send_report (actuate (now env) fd m c s3) env sp why)\<rparr>"
    by (rule tick_Inr)
  have pd: "poll_due (?s1\<lparr>buf := b\<rparr>) env = poll_due s env"
    by (rule poll_due_frame) (simp add: frame_update_hour_window)
  have pv3: "pump_view s3 = pump_view ?s1"
    unfolding s3 by (simp only: pump_view_manual_override_check pump_view_buf)
  have lc3: "last_control_check s3 = (if poll_due s env then now env else last_control_check s)"
    unfolding s3 by (simp add: manual_override_check_state pd frame_update_hour_window)
  show "out_manual_enabled out =
         (poll_due s env \<and> fst (get_manual_control_status (control_response env)))"
    by (simp add: out m manual_override_check_flags pd)
  show "out_pump_command_manual out =
         (poll_due s env \<and> snd (get_manual_control_status (control_response env)))"
    by (simp add: out c manual_override_check_flags pd)
  show "(out_decision out, out_reason out) =
         final_decision (out_proba out) (THRESH cfg) (out_soil out) EMERGENCY_ON_PCT
           (out_manual_enabled out) (out_pump_command_manual out)"
    by (simp add: out fd)
  show "out_proba out = score cfg env" by (simp add: out)
  have "pump_view s' = pump_view (actuate (now env) fd m c s3)"
    unfolding s' by (rule pump_view_send_report)
  also have "\<dots> = pump_view (actuate (now env) fd m c ?s1)"
    by (rule pump_view_actuate[OF pv3])
  finally show "pump_view s' =
         pump_view (actuate (now env) (out_decision out) (out_manual_enabled out)
                      (out_pump_command_manual out) ?s1)"
    by (simp add: out)
  show "last_control_check s' = (if poll_due s env then now env else last_control_check s)"
    unfolding s' by (simp add: send_report_state frame_actuate lc3)
  have on: "snd (turn_on (now env) fd s3) = snd (turn_on (now env) fd ?s1)"
    by (rule pump_view_turn_on_out[OF pv3])
  have off: "snd (turn_off (now env) m c (fst (turn_on (now env) fd s3)))
           = snd (turn_off (now env) m c (fst (turn_on (now env) fd ?s1)))"
    by (rule pump_view_turn_off_out[OF pump_view_turn_on[OF pv3]])
  show "relay_writes out =
         snd (turn_on (now env) (out_decision out) ?s1)
         @ fst (snd (turn_off (now env) (out_manual_enabled out) (out_pump_command_manual out)
                  (fst (turn_on (now env) (out_decision out) ?s1))))"
    by (simp add: out on off)
  show "off_message out =
         snd (snd (turn_off (now env) (out_manual_enabled out) (out_pump_command_manual out)
                  (fst (turn_on (now env) (out_decision out) ?s1))))"
    by (simp add: out off)
qed

lemma tick_seen:
  assumes "tick cfg s env = Inr (s', out)"
  shows "(out_manual_enabled out, out_pump_command_manual out) =
           (if poll_due s env then get_manual_control_status (control_response env)
            else (False, False))"
  using tick_manual_enabled[OF assms] tick_pump_command_manual[OF assms]
  by (simp add: prod_eq_iff)

lemma get_manual_control_status_failed:
  "\<not> poll_succeeds r \<Longrightarrow> get_manual_control_status r = (False, False)"
  by (simp add: poll_succeeds_def get_manual_control_status_def split: http_result.splits)

subsection \<open>The pump control by cases on the pump state\<close>

lemma turn_on_off:
  "\<not> pump_on s \<Longrightarrow>
   turn_on t fd s =
     (if may_switch_on t fd s
      then (s\<lparr>pump_on := True, on_start := t, last_change := t\<rparr>, [True]) else (s, []))"
  by (simp add: turn_on_def may_switch_on_def Let_def not_less)

lemma turn_on_on: "pump_on s \<Longrightarrow> turn_on t fd s = (s, [])"
  by (simp add: turn_on_def Let_def)

lemma turn_off_off: "\<not> pump_on s \<Longrightarrow> turn_off t m c s = (s, [], None)"
  by (simp add: turn_off_def Let_def)

lemma turn_off_on:
  "pump_on s \<Longrightarrow>
   turn_off t m c s =
     (if must_switch_off t m c s
      then (s\<lparr>pump_on := False, last_change := t, rest_until := t + REST_SEC\<rparr>, [False],
            Some (if MAX_ON_SEC \<le> t - on_start s then ''Safety cutoff - forced OFF''
                  else if m \<and> \<not> c then ''Manual Command OFF received.''
                  else ''Pump OFF (pulse ended / soak period)''))
      else (s, [], None))"
  by (simp add: turn_off_def must_switch_off_def Let_def)

lemma turn_off_fresh:
  "turn_off t m c (s\<lparr>pump_on := True, on_start := t, last_change := t\<rparr>)
     = (s\<lparr>pump_on := True, on_start := t, last_change := t\<rparr>, [], None)"
  by (simp add: turn_off_def Let_def MIN_ON_SEC_def)

lemma actuate_off:
  "\<not> pump_on s \<Longrightarrow>
   actuate t fd m c s =
     (if may_switch_on t fd s
      then s\<lparr>pump_on := True, on_start := t, last_change := t,
             run_sec_this_hour := min HOURLY_BUCKET (run_sec_this_hour s + 1)\<rparr>
      else s)"
  by (simp add: actuate_def turn_on_off turn_off_fresh turn_off_off count_run_def)

lemma actuate_on:
  "pump_on s \<Longrightarrow>
   actuate t fd m c s =
     (if must_switch_off t m c s
      then s\<lparr>pump_on := False, last_change := t, rest_until := t + REST_SEC\<rparr>
      else s\<lparr>run_sec_this_hour := min HOURLY_BUCKET (run_sec_this_hour s + 1)\<rparr>)"
  by (simp add: actuate_def turn_on_on turn_off_on count_run_def)

lemma update_hour_window_frame:
  "pump_on (update_hour_window t s) = pump_on s"
  "last_change (update_hour_window t s) = last_change s"
  "on_start (update_hour_window t s) = on_start s"
  "rest_until (update_hour_window t s) = rest_until s"
  by (simp_all add: update_hour_window_def)

lemma must_switch_off_window:
  "must_switch_off t m c (update_hour_window t s) = must_switch_off t m c s"
  by (simp add: must_switch_off_def update_hour_window_frame)

lemma may_switch_on_window:
  "may_switch_on t fd (update_hour_window t s) =
     (fd \<and> rest_until s \<le> t \<and> MIN_OFF_SEC \<le> t - last_change s
      \<and> of_int (run_sec_this_hour (update_hour_window t s)) / 60 < MAX_MIN_PER_HOUR)"
  by (simp add: may_switch_on_def update_hour_window_frame)

lemma tick_from_off:
  assumes t: "tick cfg s env = Inr (s', out)" and off: "\<not> pump_on s"
  shows "pump_on s' =
           may_switch_on (now env) (out_decision out) (update_hour_window (now env) s)"
    and "pump_on s' \<Longrightarrow> on_start s' = now env \<and> last_change s' = now env
           \<and> rest_until s' = rest_until s"
    and "\<not> pump_on s' \<Longrightarrow> last_change s' = last_change s \<and> rest_until s' = rest_until s
           \<and> on_start s' = on_start s"
    and "relay_writes out = (if pump_on s' then [True] else [])"
    and "off_message out = None"
proof -
  let ?s1 = "update_hour_window (now env) s"
  let ?fd = "out_decision out" and ?m = "out_manual_enabled out"
  let ?c = "out_pump_command_manual out"
  have off1: "\<not> pump_on ?s1" using off by (simp add: update_hour_window_frame)
  note pv = pump_viewD[OF tick_pump[OF t], unfolded actuate_off[OF off1]]
  show on: "pump_on s' = may_switch_on (now env) ?fd ?s1"
    using pv(1) off1 by simp
  show "pump_on s' \<Longrightarrow> on_start s' = now env \<and> last_change s' = now env
           \<and> rest_until s' = rest_until s"
    using pv(2,3,4) on by (simp add: update_hour_window_frame)
  show "\<not> pump_on s' \<Longrightarrow> last_change s' = last_change s \<and> rest_until s' = rest_until s
           \<and> on_start s' = on_start s"
    using pv(2,3,4) on by (simp add: update_hour_window_frame)
  show "relay_writes out = (if pump_on s' then [True] else [])"
    unfolding tick_relay_writes[OF t] on
    by (simp add: turn_on_off[OF off1] turn_off_fresh turn_off_off[OF off1])
  show "off_message out = None"
    unfolding tick_off_message[OF t]
    by (simp add: turn_on_off[OF off1] turn_off_fresh turn_off_off[OF off1])
qed

lemma tick_from_on:
  assumes t: "tick cfg s env = Inr (s', out)" and on: "pump_on s"
  shows "pump_on s' =
           (\<not> must_switch_off (now env) (out_manual_enabled out) (out_pump_command_manual out) s)"
    and "\<not> pump_on s' \<Longrightarrow> last_change s' = now env \<and> rest_until s' = now env + REST_SEC"
    and "pump_on s' \<Longrightarrow> last_change s' = last_change s \<and> on_start s' = on_start s"
    and "relay_writes out = (if pump_on s' then [] else [False])"
    and "off_message out =
           (if pump_on s' then None
            else Some (if MAX_ON_SEC \<le> now env - on_start s then ''Safety cutoff - forced OFF''
                       else if out_manual_enabled out \<and> \<not> out_pump_command_manual out
                       then ''Manual Command OFF received.''
                       else ''Pump OFF (pulse ended / soak period)''))"
proof -
  let ?s1 = "update_hour_window (now env) s"
  let ?fd = "out_decision out" and ?m = "out_manual_enabled out"
  let ?c = "out_pump_command_manual out"
  have on1: "pump_on ?s1" using on by (simp add: update_hour_window_frame)
  note pv = pump_viewD[OF tick_pump[OF t], unfolded actuate_on[OF on1] must_switch_off_window]
  show st: "pump_on s' = (\<not> must_switch_off (now env) ?m ?c s)"
    using pv(1) on1 by simp
  show "\<not> pump_on s' \<Longrightarrow> last_change s' = now env \<and> rest_until s' = now env + REST_SEC"
    using pv(2,4) st by (simp add: update_hour_window_frame)
  show "pump_on s' \<Longrightarrow> last_change s' = last_change s \<and> on_start s' = on_start s"
    using pv(2,3) st by (simp add: update_hour_window_frame)
  show "relay_writes out = (if pump_on s' then [] else [False])"
    unfolding tick_relay_writes[OF t] st
    by (simp add: turn_on_on[OF on1] turn_off_on[OF on1] must_switch_off_window)
  show "off_message out =
           (if pump_on s' then None
            else Some (if MAX_ON_SEC \<le> now env - on_start s then ''Safety cutoff - forced OFF''
                       else if ?m \<and> \<not> ?c then ''Manual Command OFF received.''
                       else ''Pump OFF (pulse ended / soak period)''))"
    unfolding tick_off_message[OF t] st
    by (simp add: turn_on_on[OF on1] turn_off_on[OF on1] must_switch_off_window
        update_hour_window_frame)
qed

lemma tick_run_counter:
  assumes t: "tick cfg s env = Inr (s', out)"
  shows "run_sec_this_hour s' =
           (if pump_on s'
            then min HOURLY_BUCKET (run_sec_this_hour (update_hour_window (now env) s) + 1)
            else run_sec_this_hour (update_hour_window (now env) s))"
    and "hour_window_start s' = hour_window_start (update_hour_window (now env) s)"
proof -
  let ?s1 = "update_hour_window (now env) s"
  have both: "run_sec_this_hour s' =
           (if pump_on s'
            then min HOURLY_BUCKET (run_sec_this_hour ?s1 + 1)
            else run_sec_this_hour ?s1)
          \<and> hour_window_start s' = hour_window_start ?s1"
  proof (cases "pump_on s")
    case True
    then have on1: "pump_on ?s1" by (simp add: update_hour_window_frame)
    note pv = pump_viewD[OF tick_pump[OF t], unfolded actuate_on[OF on1]]
    show ?thesis using pv(1,5,6) on1 by (simp split: if_splits)
  next
    case False
    then have off1: "\<not> pump_on ?s1" by (simp add: update_hour_window_frame)
    note pv = pump_viewD[OF tick_pump[OF t], unfolded actuate_off[OF off1]]
    show ?thesis using pv(1,5,6) off1 by (simp split: if_splits)
  qed
  from both show "run_sec_this_hour s' =
           (if pump_on s'
            then min HOURLY_BUCKET (run_sec_this_hour ?s1 + 1)
            else run_sec_this_hour ?s1)" ..
  from both show "hour_window_start s' = hour_window_start ?s1" ..
qed

subsection \<open>Runs\<close>

text \<open>
  A run over \<open>n\<close> environments has \<open>n + 1\<close> states and \<open>n\<close> outputs, and iteration \<open>k\<close>
  leads from state \<open>k\<close> to state \<open>k + 1\<close>.
\<close>

lemma length_states: "length (states cfg s envs) = Suc (length envs)"
proof (induction envs arbitrary: s)
  case Nil
  show ?case by simp
next
  case (Cons e es)
  obtain s' out where "tick cfg s e = Inr (s', out)" using tick_total by blast
  with Cons show ?case by simp
qed

lemma length_outs: "length (outs cfg s envs) = length envs"
proof (induction envs arbitrary: s)
  case Nil
  show ?case by simp
next
  case (Cons e es)
  obtain s' out where "tick cfg s e = Inr (s', out)" using tick_total by blast
  with Cons show ?case by simp
qed

lemma trace_step:
  "k < length envs \<Longrightarrow>
   tick cfg (states cfg s envs ! k) (envs ! k)
     = Inr (states cfg s envs ! Suc k, outs cfg s envs ! k)"
proof (induction envs arbitrary: s k)
  case Nil
  then show ?case by simp
next
  case (Cons e es)
  obtain s' out where t: "tick cfg s e = Inr (s', out)" using tick_total by blast
  show ?case
  proof (cases k)
    case 0
    with t show ?thesis by (cases es) simp_all
  next
    case (Suc j)
    with Cons.prems have "j < length es" by simp
    from Cons.IH[OF this, of s'] t Suc show ?thesis by simp
  qed
qed

lemma off_period:
  assumes on: "pump_on (states cfg s0 envs ! i)"
    and off: "\<And>k. i < k \<Longrightarrow> k \<le> j \<Longrightarrow> \<not> pump_on (states cfg s0 envs ! k)"
    and j: "j \<le> length envs"
  shows "i < k \<longrightarrow> k \<le> j \<longrightarrow>
         last_change (states cfg s0 envs ! k) = now (envs ! i)
         \<and> rest_until (states cfg s0 envs ! k) = now (envs ! i) + REST_SEC"
proof (induction k)
  case 0
  show ?case by simp
next
  case (Suc k)
  show ?case
  proof (intro impI)
    assume ik: "i < Suc k" and kj: "Suc k \<le> j"
    then have klen: "k < length envs" using j by simp
    note step = trace_step[OF klen, of cfg s0]
    have offk: "\<not> pump_on (states cfg s0 envs ! Suc k)" using off[OF ik kj] .
    show "last_change (states cfg s0 envs ! Suc k) = now (envs ! i)
         \<and> rest_until (states cfg s0 envs ! Suc k) = now (envs ! i) + REST_SEC"
    proof (cases "k = i")
      case True
      with on tick_from_on(2)[OF step _ offk] show ?thesis by simp
    next
      case False
      with ik have ik': "i < k" by simp
      with kj have kj': "k \<le> j" by simp
      from off[OF ik' kj'] have "\<not> pump_on (states cfg s0 envs ! k)" .
      from tick_from_off(3)[OF step this offk] Suc.IH ik' kj' show ?thesis by simp
    qed
  qed
qed

subsection \<open>The scorer fallback\<close>

text \<open>
  \<^bold>\<open>C1.\<close> The claim: when the model fails to load, the process goes on, the fallback
  scorer yields probability 0.0 on every iteration, and the AI branch of the decision
  never fires. The evaluation below is the code on a missing model file and fully wet
  soil (every ADC sample 233, so 100 percent), no manual mode. A missing file selects
  \<open>MODEL = False\<close> with \<open>THRESH = 0\<close>, and the probability is 0; but \<open>0 \<ge> 0\<close>, so
  the AI branch fires, the reason is \<open>AI\<close> and the pump is switched on. Any other load
  failure is not caught.
\<close>

theorem fallback_scorer_fires_ai:
  "load_model FileNotFoundError = Inr fallback_cfg
   \<and> load_model OtherLoadFailure = Inl UnhandledLoadError
   \<and> map out_soil (outs fallback_cfg (initial 0 0 0 0) wet_envs) = [100]
   \<and> map out_manual_enabled (outs fallback_cfg (initial 0 0 0 0) wet_envs) = [False]
   \<and> map out_proba (outs fallback_cfg (initial 0 0 0 0) wet_envs) = [0]
   \<and> map out_decision (outs fallback_cfg (initial 0 0 0 0) wet_envs) = [True]
   \<and> map out_reason (outs fallback_cfg (initial 0 0 0 0) wet_envs) = [''AI'']
   \<and> map pump_on (states fallback_cfg (initial 0 0 0 0) wet_envs) = [False, True]"
  by code_simp

text \<open>
  The same on every iteration of the fallback configuration: the probability is 0, and
  outside manual mode the decision is true with reason \<open>AI\<close>, whatever the soil.
\<close>

lemma fallback_always_ai:
  assumes "tick fallback_cfg s env = Inr (s', out)"
  shows "out_proba out = 0"
    and "\<not> out_manual_enabled out \<Longrightarrow> out_decision out \<and> out_reason out = ''AI''"
proof -
  show p: "out_proba out = 0"
    using tick_proba[OF assms] by (simp add: score_def fallback_cfg_def)
  assume "\<not> out_manual_enabled out"
  with tick_decision[OF assms] p
  have "(out_decision out, out_reason out) = (True, ''AI'')"
    by (simp add: final_decision_def fallback_cfg_def Let_def)
  then show "out_decision out \<and> out_reason out = ''AI''" by simp
qed

subsection \<open>The manual-control state seen by the decision\<close>

text \<open>
  \<^bold>\<open>C2\<close> (as amended). On every iteration at which a poll of the control endpoint is due,
  the decision sees the state returned by that poll when it succeeds (status 200, a
  missing field reading as false), and \<open>(False, False)\<close> when it fails: a state fetched
  earlier is not kept. While no fetch has ever succeeded, the decision sees
  \<open>(False, False)\<close> on every iteration.
\<close>

theorem manual_state_seen:
  "(\<forall>k<length envs.
      poll_due (states cfg s0 envs ! k) (envs ! k) \<and> poll_succeeds (control_response (envs ! k)) \<longrightarrow>
        (out_manual_enabled (outs cfg s0 envs ! k), out_pump_command_manual (outs cfg s0 envs ! k))
          = get_manual_control_status (control_response (envs ! k)))
   \<and> (\<forall>k<length envs.
        poll_due (states cfg s0 envs ! k) (envs ! k) \<and> \<not> poll_succeeds (control_response (envs ! k)) \<longrightarrow>
          (out_manual_enabled (outs cfg s0 envs ! k), out_pump_command_manual (outs cfg s0 envs ! k))
            = (False, False))
   \<and> (\<forall>k<length envs.
        (\<forall>j\<le>k. \<not> (poll_due (states cfg s0 envs ! j) (envs ! j)
                    \<and> poll_succeeds (control_response (envs ! j)))) \<longrightarrow>
          (out_manual_enabled (outs cfg s0 envs ! k), out_pump_command_manual (outs cfg s0 envs ! k))
            = (False, False))"
proof (intro conjI allI impI)
  fix k assume k: "k < length envs"
    and "poll_due (states cfg s0 envs ! k) (envs ! k) \<and> poll_succeeds (control_response (envs ! k))"
  with tick_seen[OF trace_step[OF k, of cfg s0]]
  show "(out_manual_enabled (outs cfg s0 envs ! k), out_pump_command_manual (outs cfg s0 envs ! k))
          = get_manual_control_status (control_response (envs ! k))"
    by simp
next
  fix k assume k: "k < length envs"
    and "poll_due (states cfg s0 envs ! k) (envs ! k) \<and> \<not> poll_succeeds (control_response (envs ! k))"
  with tick_seen[OF trace_step[OF k, of cfg s0]]
  show "(out_manual_enabled (outs cfg s0 envs ! k), out_pump_command_manual (outs cfg s0 envs ! k))
          = (False, False)"
    by (simp add: get_manual_control_status_failed)
next
  fix k assume k: "k < length envs"
    and never: "\<forall>j\<le>k. \<not> (poll_due (states cfg s0 envs ! j) (envs ! j)
                    \<and> poll_succeeds (control_response (envs ! j)))"
  then have "\<not> (poll_due (states cfg s0 envs ! k) (envs ! k)
                    \<and> poll_succeeds (control_response (envs ! k)))" by simp
  with tick_seen[OF trace_step[OF k, of cfg s0]]
  show "(out_manual_enabled (outs cfg s0 envs ! k), out_pump_command_manual (outs cfg s0 envs ! k))
          = (False, False)"
    by (auto simp: get_manual_control_status_failed)
qed

theorem manual_state_seen_witness:
  "poll_due (states loaded_cfg (initial 0 0 0 0) poll_envs ! 0) (poll_envs ! 0)
   \<and> poll_succeeds (control_response (poll_envs ! 0))
   \<and> (out_manual_enabled (outs loaded_cfg (initial 0 0 0 0) poll_envs ! 0),
       out_pump_command_manual (outs loaded_cfg (initial 0 0 0 0) poll_envs ! 0)) = (True, True)
   \<and> poll_due (states loaded_cfg (initial 0 0 0 0) poll_envs ! 2) (poll_envs ! 2)
   \<and> \<not> poll_succeeds (control_response (poll_envs ! 2))
   \<and> (out_manual_enabled (outs loaded_cfg (initial 0 0 0 0) poll_envs ! 2),
       out_pump_command_manual (outs loaded_cfg (initial 0 0 0 0) poll_envs ! 2)) = (False, False)
   \<and> \<not> poll_succeeds (control_response (cutoff_envs ! 0))
   \<and> (out_manual_enabled (outs loaded_cfg (initial 0 0 0 0) cutoff_envs ! 0),
       out_pump_command_manual (outs loaded_cfg (initial 0 0 0 0) cutoff_envs ! 0)) = (False, False)"
proof -
  let ?ss = "states loaded_cfg (initial 0 0 0 0) poll_envs"
  let ?os = "outs loaded_cfg (initial 0 0 0 0) poll_envs"
  have len: "0 < length poll_envs" "2 < length poll_envs" "0 < length cutoff_envs"
    by (simp_all add: poll_envs_def cutoff_envs_def)
  have d0: "poll_due (?ss ! 0) (poll_envs ! 0)" and s0: "poll_succeeds (control_response (poll_envs ! 0))"
    and d2: "poll_due (?ss ! 2) (poll_envs ! 2)"
    and f2: "\<not> poll_succeeds (control_response (poll_envs ! 2))"
    and f0: "\<not> poll_succeeds (control_response (cutoff_envs ! 0))"
    by code_simp+
  have g: "get_manual_control_status (control_response (poll_envs ! 0)) = (True, True)"
    by code_simp
  have never: "\<forall>j\<le>0. \<not> (poll_due (states loaded_cfg (initial 0 0 0 0) cutoff_envs ! j) (cutoff_envs ! j)
                    \<and> poll_succeeds (control_response (cutoff_envs ! j)))"
    using f0 by simp
  from manual_state_seen[of poll_envs loaded_cfg "initial 0 0 0 0"] len(1) d0 s0
  have "(out_manual_enabled (?os ! 0), out_pump_command_manual (?os ! 0))
          = get_manual_control_status (control_response (poll_envs ! 0))"
    by blast
  with g have a: "(out_manual_enabled (?os ! 0), out_pump_command_manual (?os ! 0)) = (True, True)"
    by simp
  from manual_state_seen[of poll_envs loaded_cfg "initial 0 0 0 0"] len(2) d2 f2
  have b: "(out_manual_enabled (?os ! 2), out_pump_command_manual (?os ! 2)) = (False, False)"
    by blast
  from manual_state_seen[of cutoff_envs loaded_cfg "initial 0 0 0 0"] len(3) never
  have c: "(out_manual_enabled (outs loaded_cfg (initial 0 0 0 0) cutoff_envs ! 0),
       out_pump_command_manual (outs loaded_cfg (initial 0 0 0 0) cutoff_envs ! 0)) = (False, False)"
    by blast
  from d0 s0 a d2 f2 b f0 c show ?thesis by blast
qed

text \<open>
  The claim as first stated (a failed poll, or an iteration without a poll, leaves the
  last fetched state in force) fails on this run: the poll at time 3 fetches
  \<open>(True, True)\<close>, no poll is due at 4.5, and the poll at 6 fails.
\<close>

theorem manual_state_seen_counterexample:
  "map control_response poll_envs
     = [Response 200 (Some True) (Some True), Response 200 (Some True) (Some True),
        RequestException]
   \<and> poll_due (states loaded_cfg (initial 0 0 0 0) poll_envs ! 0) (poll_envs ! 0)
   \<and> \<not> poll_due (states loaded_cfg (initial 0 0 0 0) poll_envs ! 1) (poll_envs ! 1)
   \<and> poll_due (states loaded_cfg (initial 0 0 0 0) poll_envs ! 2) (poll_envs ! 2)
   \<and> map out_manual_enabled (outs loaded_cfg (initial 0 0 0 0) poll_envs) = [True, False, False]
   \<and> map out_pump_command_manual (outs loaded_cfg (initial 0 0 0 0) poll_envs)
       = [True, False, False]"
  by code_simp

subsection \<open>Switching the pump on\<close>

text \<open>
  \<^bold>\<open>C3.\<close> The claim: the pump never goes from off to on less than \<open>MIN_OFF_SEC\<close> after it
  went off, nor while a rest period is pending, nor when the run time accumulated this
  hour has reached the hourly cap. The evaluation below is the code through a network
  outage with dry soil, one iteration every 31.5 seconds. After 32 iterations the pump
  has been on for 504 seconds of the hour window that began at time 0, past the cap of
  8 minutes; the counter \<open>run_sec_this_hour\<close>, which grows by one per iteration, stands
  at 16, and iteration 33 switches the pump on.
\<close>

theorem hourly_cap_counts_ticks:
  "now (outage_envs ! 32) = 1039.5
   \<and> hour_window_start (states loaded_cfg (initial 0 0 0 0) outage_envs ! 32) = 0
   \<and> on_time 0 (states loaded_cfg (initial 0 0 0 0) outage_envs) outage_envs = 504
   \<and> MAX_MIN_PER_HOUR * 60 = 480
   \<and> run_sec_this_hour (states loaded_cfg (initial 0 0 0 0) outage_envs ! 32) = 16
   \<and> pump_on (states loaded_cfg (initial 0 0 0 0) outage_envs ! 32) = False
   \<and> pump_on (states loaded_cfg (initial 0 0 0 0) outage_envs ! 33) = True"
  by code_simp

text \<open>
  The other guards of the transition hold in every run. The pump goes from off to on
  only on an iteration whose decision is true, with no rest period pending
  (\<open>rest_until \<le> now\<close>), at least \<open>MIN_OFF_SEC\<close> after the last transition, and with the
  counter \<open>run_sec_this_hour\<close> (after the update of the hourly window) below 60 times
  \<open>MAX_MIN_PER_HOUR\<close>. Hence, when iteration \<open>i\<close> switches the pump off and iteration \<open>j\<close>
  is the next one to switch it on, the two are at least \<open>MIN_OFF_SEC\<close> (and at least
  \<open>REST_SEC\<close>) apart.
\<close>

lemma pump_switch_on_guarded:
  "(\<forall>k<length envs.
      \<not> pump_on (states cfg s0 envs ! k) \<and> pump_on (states cfg s0 envs ! Suc k) \<longrightarrow>
        out_decision (outs cfg s0 envs ! k)
      \<and> rest_until (states cfg s0 envs ! k) \<le> now (envs ! k)
      \<and> MIN_OFF_SEC \<le> now (envs ! k) - last_change (states cfg s0 envs ! k)
      \<and> of_int (run_sec_this_hour (update_hour_window (now (envs ! k)) (states cfg s0 envs ! k))) / 60
          < MAX_MIN_PER_HOUR)
   \<and> (\<forall>i j. i < j \<and> j < length envs
          \<and> pump_on (states cfg s0 envs ! i)
          \<and> (\<forall>k. i < k \<and> k \<le> j \<longrightarrow> \<not> pump_on (states cfg s0 envs ! k))
          \<and> pump_on (states cfg s0 envs ! Suc j) \<longrightarrow>
        MIN_OFF_SEC \<le> now (envs ! j) - now (envs ! i)
        \<and> now (envs ! i) + REST_SEC \<le> now (envs ! j))"
proof (intro conjI allI impI)
  fix k
  assume k: "k < length envs"
    and sw: "\<not> pump_on (states cfg s0 envs ! k) \<and> pump_on (states cfg s0 envs ! Suc k)"
  from tick_from_off(1)[OF trace_step[OF k, of cfg s0]] sw
  have g: "may_switch_on (now (envs ! k)) (out_decision (outs cfg s0 envs ! k))
          (update_hour_window (now (envs ! k)) (states cfg s0 envs ! k))"
    by simp
  from g show "out_decision (outs cfg s0 envs ! k)"
    by (simp add: may_switch_on_window)
  from g show "rest_until (states cfg s0 envs ! k) \<le> now (envs ! k)"
    by (simp add: may_switch_on_window)
  from g show "MIN_OFF_SEC \<le> now (envs ! k) - last_change (states cfg s0 envs ! k)"
    by (simp add: may_switch_on_window)
  from g show "of_int (run_sec_this_hour (update_hour_window (now (envs ! k)) (states cfg s0 envs ! k))) / 60
          < MAX_MIN_PER_HOUR"
    by (simp add: may_switch_on_window)
next
  fix i j
  assume a: "i < j \<and> j < length envs
          \<and> pump_on (states cfg s0 envs ! i)
          \<and> (\<forall>k. i < k \<and> k \<le> j \<longrightarrow> \<not> pump_on (states cfg s0 envs ! k))
          \<and> pump_on (states cfg s0 envs ! Suc j)"
  then have ij: "i < j" and j: "j < length envs" and on: "pump_on (states cfg s0 envs ! i)"
    and off: "\<And>k. i < k \<Longrightarrow> k \<le> j \<Longrightarrow> \<not> pump_on (states cfg s0 envs ! k)"
    and onj: "pump_on (states cfg s0 envs ! Suc j)"
    by simp_all
  from off_period[OF on off, of j j] ij j
  have lc: "last_change (states cfg s0 envs ! j) = now (envs ! i)"
    and ru: "rest_until (states cfg s0 envs ! j) = now (envs ! i) + REST_SEC"
    by simp_all
  have offj: "\<not> pump_on (states cfg s0 envs ! j)" using off[OF ij] by simp
  from tick_from_off(1)[OF trace_step[OF j, of cfg s0] offj] onj
  have g: "may_switch_on (now (envs ! j)) (out_decision (outs cfg s0 envs ! j))
          (update_hour_window (now (envs ! j)) (states cfg s0 envs ! j))"
    by simp
  from g lc show "MIN_OFF_SEC \<le> now (envs ! j) - now (envs ! i)"
    by (simp add: may_switch_on_window)
  from g ru show "now (envs ! i) + REST_SEC \<le> now (envs ! j)"
    by (simp add: may_switch_on_window)
qed

lemma pump_switch_on_guarded_sample:
  "pump_on (states loaded_cfg (initial 0 0 0 0) dry_run_envs ! 1)
   \<and> \<not> pump_on (states loaded_cfg (initial 0 0 0 0) dry_run_envs ! 2)
   \<and> \<not> pump_on (states loaded_cfg (initial 0 0 0 0) dry_run_envs ! 3)
   \<and> pump_on (states loaded_cfg (initial 0 0 0 0) dry_run_envs ! Suc 3)
   \<and> MIN_OFF_SEC \<le> now (dry_run_envs ! 3) - now (dry_run_envs ! 1)
   \<and> now (dry_run_envs ! 1) + REST_SEC \<le> now (dry_run_envs ! 3)
   \<and> out_decision (outs loaded_cfg (initial 0 0 0 0) dry_run_envs ! 3)
   \<and> rest_until (states loaded_cfg (initial 0 0 0 0) dry_run_envs ! 3) \<le> now (dry_run_envs ! 3)
   \<and> MIN_OFF_SEC
        \<le> now (dry_run_envs ! 3) - last_change (states loaded_cfg (initial 0 0 0 0) dry_run_envs ! 3)"
proof -
  let ?ss = "states loaded_cfg (initial 0 0 0 0) dry_run_envs"
  have p1: "pump_on (?ss ! 1)" by code_simp
  have p2: "\<not> pump_on (?ss ! 2)" by code_simp
  have p3: "\<not> pump_on (?ss ! 3)" by code_simp
  have p4: "pump_on (?ss ! Suc 3)" by code_simp
  have len: "3 < length dry_run_envs" by (simp add: dry_run_envs_def)
  have lt: "(1::nat) < 3" by simp
  have between: "\<forall>k. 1 < k \<and> k \<le> 3 \<longrightarrow> \<not> pump_on (?ss ! k)"
  proof (intro allI impI)
    fix k :: nat
    assume "1 < k \<and> k \<le> 3"
    then have "k = 2 \<or> k = 3" by arith
    with p2 p3 show "\<not> pump_on (?ss ! k)" by auto
  qed
  note T = pump_switch_on_guarded[of dry_run_envs loaded_cfg "initial 0 0 0 0"]
  from T lt len p1 between p4
  have a: "MIN_OFF_SEC \<le> now (dry_run_envs ! 3) - now (dry_run_envs ! 1)
           \<and> now (dry_run_envs ! 1) + REST_SEC \<le> now (dry_run_envs ! 3)"
    by blast
  from T len p3 p4
  have b: "out_decision (outs loaded_cfg (initial 0 0 0 0) dry_run_envs ! 3)
     \<and> rest_until (?ss ! 3) \<le> now (dry_run_envs ! 3)
     \<and> MIN_OFF_SEC \<le> now (dry_run_envs ! 3) - last_change (?ss ! 3)"
    by blast
  from p1 p2 p3 p4 a b show ?thesis by blast
qed

subsection \<open>The safety cutoff\<close>

text \<open>
  \<^bold>\<open>C4.\<close> Time is read once per iteration, so durations are those seen at the iterations.
  In every run, whenever the pump is on at the end of an iteration, it has been on for
  less than \<open>MAX_ON_SEC\<close>, or less than \<open>MIN_ON_SEC\<close> have passed since the last
  transition. And the iteration that finds the pump on with both \<open>MAX_ON_SEC\<close> elapsed
  since \<open>on_start\<close> and \<open>MIN_ON_SEC\<close> elapsed since the last transition switches it off
  itself, by the safety cutoff.
\<close>

theorem safety_cutoff:
  "(\<forall>k<length envs.
      pump_on (states cfg s0 envs ! Suc k) \<longrightarrow>
        now (envs ! k) - on_start (states cfg s0 envs ! Suc k) < MAX_ON_SEC
        \<or> now (envs ! k) - last_change (states cfg s0 envs ! Suc k) < MIN_ON_SEC)
   \<and> (\<forall>k<length envs.
        pump_on (states cfg s0 envs ! k)
        \<and> MAX_ON_SEC \<le> now (envs ! k) - on_start (states cfg s0 envs ! k)
        \<and> MIN_ON_SEC \<le> now (envs ! k) - last_change (states cfg s0 envs ! k) \<longrightarrow>
          \<not> pump_on (states cfg s0 envs ! Suc k)
          \<and> relay_writes (outs cfg s0 envs ! k) = [False]
          \<and> off_message (outs cfg s0 envs ! k) = Some ''Safety cutoff - forced OFF'')"
proof (intro conjI allI impI)
  fix k
  assume k: "k < length envs" and on': "pump_on (states cfg s0 envs ! Suc k)"
  note step = trace_step[OF k, of cfg s0]
  show "now (envs ! k) - on_start (states cfg s0 envs ! Suc k) < MAX_ON_SEC
        \<or> now (envs ! k) - last_change (states cfg s0 envs ! Suc k) < MIN_ON_SEC"
  proof (cases "pump_on (states cfg s0 envs ! k)")
    case True
    from tick_from_on(1)[OF step True] tick_from_on(3)[OF step True on'] on'
    show ?thesis by (auto simp: must_switch_off_def)
  next
    case False
    from tick_from_off(2)[OF step False on'] show ?thesis
      by (simp add: MAX_ON_SEC_def)
  qed
next
  fix k
  assume k: "k < length envs"
    and a: "pump_on (states cfg s0 envs ! k)
        \<and> MAX_ON_SEC \<le> now (envs ! k) - on_start (states cfg s0 envs ! k)
        \<and> MIN_ON_SEC \<le> now (envs ! k) - last_change (states cfg s0 envs ! k)"
  note step = trace_step[OF k, of cfg s0]
  from a have on: "pump_on (states cfg s0 envs ! k)" by simp
  from tick_from_on(1)[OF step on] a
  show off: "\<not> pump_on (states cfg s0 envs ! Suc k)" by (simp add: must_switch_off_def)
  from tick_from_on(4)[OF step on] off
  show "relay_writes (outs cfg s0 envs ! k) = [False]" by simp
  from tick_from_on(5)[OF step on] off a
  show "off_message (outs cfg s0 envs ! k) = Some ''Safety cutoff - forced OFF''" by simp
qed

theorem safety_cutoff_witness:
  "pump_on (states loaded_cfg (initial 0 0 0 0) cutoff_envs ! 1)
   \<and> (now (cutoff_envs ! 0) - on_start (states loaded_cfg (initial 0 0 0 0) cutoff_envs ! Suc 0)
         < MAX_ON_SEC
       \<or> now (cutoff_envs ! 0) - last_change (states loaded_cfg (initial 0 0 0 0) cutoff_envs ! Suc 0)
         < MIN_ON_SEC)
   \<and> MAX_ON_SEC \<le> now (cutoff_envs ! 1) - on_start (states loaded_cfg (initial 0 0 0 0) cutoff_envs ! 1)
   \<and> MIN_ON_SEC \<le> now (cutoff_envs ! 1) - last_change (states loaded_cfg (initial 0 0 0 0) cutoff_envs ! 1)
   \<and> \<not> pump_on (states loaded_cfg (initial 0 0 0 0) cutoff_envs ! Suc 1)
   \<and> relay_writes (outs loaded_cfg (initial 0 0 0 0) cutoff_envs ! 1) = [False]
   \<and> off_message (outs loaded_cfg (initial 0 0 0 0) cutoff_envs ! 1)
       = Some ''Safety cutoff - forced OFF''"
proof -
  let ?ss = "states loaded_cfg (initial 0 0 0 0) cutoff_envs"
  have p1: "pump_on (?ss ! 1)" by code_simp
  have p1': "pump_on (?ss ! Suc 0)" by code_simp
  have h1: "MAX_ON_SEC \<le> now (cutoff_envs ! 1) - on_start (?ss ! 1)" by code_simp
  have h2: "MIN_ON_SEC \<le> now (cutoff_envs ! 1) - last_change (?ss ! 1)" by code_simp
  have len: "0 < length cutoff_envs" "1 < length cutoff_envs" by (simp_all add: cutoff_envs_def)
  note T = safety_cutoff[of cutoff_envs loaded_cfg "initial 0 0 0 0"]
  from T len(1) p1'
  have a: "now (cutoff_envs ! 0) - on_start (?ss ! Suc 0) < MAX_ON_SEC
       \<or> now (cutoff_envs ! 0) - last_change (?ss ! Suc 0) < MIN_ON_SEC"
    by blast
  from T len(2) p1 h1 h2
  have b: "\<not> pump_on (?ss ! Suc 1)
   \<and> relay_writes (outs loaded_cfg (initial 0 0 0 0) cutoff_envs ! 1) = [False]
   \<and> off_message (outs loaded_cfg (initial 0 0 0 0) cutoff_envs ! 1)
       = Some ''Safety cutoff - forced OFF''"
    by blast
  from p1 a h1 h2 b show ?thesis by blast
qed

subsection \<open>The decision\<close>

text \<open>
  \<^bold>\<open>C5.\<close> The decision is a function of the probability, the threshold, the soil
  percentage, the emergency threshold and the manual state. In manual mode it is the
  commanded pump state with reason \<open>MANUAL\<close>, whatever the probability and the soil
  (so a manual OFF suppresses emergency irrigation). Otherwise it is
  \<open>ai_trigger \<or> emergency_trigger\<close>, with reason \<open>AI\<close> if the probability reaches the
  threshold, else \<open>EMERGENCY\<close> if the soil is at or below the emergency threshold, else
  \<open>NO\<close> (the code's tag for no reason). Probability 0.9 at threshold 0.06 gives \<open>AI\<close>;
  probability 0.0 with soil 15 and emergency threshold 20 gives \<open>EMERGENCY\<close> at any
  positive threshold; both triggers false give \<open>NO\<close>. Every iteration of the loop takes
  its decision and reason from this function.
\<close>

theorem final_decision_arbitration:
  "final_decision p th sp emg True cmd = (cmd, ''MANUAL'')
   \<and> final_decision p th sp emg True False = (False, ''MANUAL'')
   \<and> final_decision p th sp emg False cmd
       = (th \<le> p \<or> sp \<le> emg,
          if th \<le> p then ''AI'' else if sp \<le> emg then ''EMERGENCY'' else ''NO'')
   \<and> snd (final_decision 0.9 0.06 sp emg False cmd) = ''AI''
   \<and> (0 < th \<longrightarrow> snd (final_decision 0.0 th 15 20 False cmd) = ''EMERGENCY'')
   \<and> (p < th \<and> emg < sp \<longrightarrow> final_decision p th sp emg False cmd = (False, ''NO''))
   \<and> (\<forall>s env s' out. tick cfg s env = Inr (s', out) \<longrightarrow>
         (out_decision out, out_reason out)
           = final_decision (out_proba out) (THRESH cfg) (out_soil out) EMERGENCY_ON_PCT
               (out_manual_enabled out) (out_pump_command_manual out))"
proof -
  have a: "final_decision p th sp emg True cmd = (cmd, ''MANUAL'')"
    "final_decision p th sp emg True False = (False, ''MANUAL'')"
    by (simp_all add: final_decision_def)
  have b: "final_decision p th sp emg False cmd
       = (th \<le> p \<or> sp \<le> emg,
          if th \<le> p then ''AI'' else if sp \<le> emg then ''EMERGENCY'' else ''NO'')"
    by (simp add: final_decision_def Let_def)
  have c: "snd (final_decision 0.9 0.06 sp emg False cmd) = ''AI''"
    "0 < th \<longrightarrow> snd (final_decision 0.0 th 15 20 False cmd) = ''EMERGENCY''"
    "p < th \<and> emg < sp \<longrightarrow> final_decision p th sp emg False cmd = (False, ''NO'')"
    by (simp_all add: final_decision_def Let_def)
  have d: "\<forall>s env s' out. tick cfg s env = Inr (s', out) \<longrightarrow>
         (out_decision out, out_reason out)
           = final_decision (out_proba out) (THRESH cfg) (out_soil out) EMERGENCY_ON_PCT
               (out_manual_enabled out) (out_pump_command_manual out)"
    using tick_decision by blast
  from a b c d show ?thesis by blast
qed

theorem final_decision_arbitration_witness:
  "(0::real) < 0.06
   \<and> snd (final_decision 0.0 0.06 15 20 False False) = ''EMERGENCY''
   \<and> (0::real) < 0.06 \<and> (20::real) < 50
   \<and> final_decision 0 0.06 50 20 False False = (False, ''NO'')
   \<and> tick loaded_cfg (initial 0 0 0 0) (sample_env 3 619 0 RequestException)
       = Inr (states loaded_cfg (initial 0 0 0 0) [sample_env 3 619 0 RequestException] ! 1,
              outs loaded_cfg (initial 0 0 0 0) [sample_env 3 619 0 RequestException] ! 0)
   \<and> (out_decision (outs loaded_cfg (initial 0 0 0 0) [sample_env 3 619 0 RequestException] ! 0),
       out_reason (outs loaded_cfg (initial 0 0 0 0) [sample_env 3 619 0 RequestException] ! 0))
       = final_decision 0 0.06 0 20 False False"
proof -
  let ?e = "sample_env 3 619 0 RequestException"
  let ?o = "outs loaded_cfg (initial 0 0 0 0) [?e] ! 0"
  have h1: "(0::real) < 0.06" and h2: "(0::real) < 0.06 \<and> (20::real) < 50" by simp_all
  have step: "tick loaded_cfg (initial 0 0 0 0) ?e
       = Inr (states loaded_cfg (initial 0 0 0 0) [?e] ! 1, ?o)"
    by code_simp
  have fields: "out_proba ?o = 0" "THRESH loaded_cfg = 0.06" "out_soil ?o = 0"
    "EMERGENCY_ON_PCT = 20" "out_manual_enabled ?o = False" "out_pump_command_manual ?o = False"
    by code_simp+
  from final_decision_arbitration[where p=0 and th="0.06" and sp=15 and emg=20 and cmd=False and cfg=loaded_cfg] h1
  have a: "snd (final_decision 0.0 0.06 15 20 False False) = ''EMERGENCY''" by simp
  from final_decision_arbitration[where p=0 and th="0.06" and sp=50 and emg=20 and cmd=False and cfg=loaded_cfg] h2
  have b: "final_decision 0 0.06 50 20 False False = (False, ''NO'')" by blast
  from final_decision_arbitration[where p=0 and th="0.06" and sp=50 and emg=20 and cmd=False and cfg=loaded_cfg] step
  have "(out_decision ?o, out_reason ?o)
           = final_decision (out_proba ?o) (THRESH loaded_cfg) (out_soil ?o) EMERGENCY_ON_PCT
               (out_manual_enabled ?o) (out_pump_command_manual ?o)"
    by blast
  then have c: "(out_decision ?o, out_reason ?o) = final_decision 0 0.06 0 20 False False"
    by (simp only: fields)
  from h1 h2 a b step c show ?thesis by blast
qed

subsection \<open>The hourly run counter\<close>

text \<open>
  \<^bold>\<open>C7.\<close> The claim: while the pump is on, \<open>run_sec_this_hour\<close> grows by the elapsed
  duration of the iteration. The evaluation below is the code on a run with one
  iteration every 1.5 seconds: the pump is on from time 3 to time 9, six seconds, and
  the counter ends at 4, one per iteration that leaves the pump on.
\<close>

theorem run_counter_counts_ticks:
  "map now burst_envs = [3, 4.5, 6, 7.5, 9]
   \<and> map pump_on (states loaded_cfg (initial 0 0 0 0) burst_envs)
       = [False, True, True, True, True, False]
   \<and> map run_sec_this_hour (states loaded_cfg (initial 0 0 0 0) burst_envs) = [0, 1, 2, 3, 4, 4]"
  by code_simp

subsection \<open>A manual OFF command\<close>

text \<open>
  \<^bold>\<open>C8\<close> (as amended). In every run, on an iteration that sees manual mode enabled with
  the pump commanded off, whatever the soil percentage: the decision is false with
  reason \<open>MANUAL\<close>; a pump that is off stays off; a pump that is on is switched off on
  that iteration if at least \<open>MIN_ON_SEC\<close> have passed since it was switched on, and
  stays on otherwise.
\<close>

theorem manual_off_command:
  "\<forall>k<length envs.
     out_manual_enabled (outs cfg s0 envs ! k) \<and> \<not> out_pump_command_manual (outs cfg s0 envs ! k) \<longrightarrow>
       \<not> out_decision (outs cfg s0 envs ! k)
     \<and> out_reason (outs cfg s0 envs ! k) = ''MANUAL''
     \<and> (\<not> pump_on (states cfg s0 envs ! k) \<longrightarrow> \<not> pump_on (states cfg s0 envs ! Suc k))
     \<and> (pump_on (states cfg s0 envs ! k) \<longrightarrow>
          pump_on (states cfg s0 envs ! Suc k)
            = (now (envs ! k) - last_change (states cfg s0 envs ! k) < MIN_ON_SEC))"
proof (intro allI impI)
  fix k assume k: "k < length envs"
    and m: "out_manual_enabled (outs cfg s0 envs ! k) \<and> \<not> out_pump_command_manual (outs cfg s0 envs ! k)"
  note step = trace_step[OF k, of cfg s0]
  from tick_decision[OF step] m
  have d: "\<not> out_decision (outs cfg s0 envs ! k)" and r: "out_reason (outs cfg s0 envs ! k) = ''MANUAL''"
    by (simp_all add: final_decision_def Let_def)
  have off: "\<not> pump_on (states cfg s0 envs ! k) \<longrightarrow> \<not> pump_on (states cfg s0 envs ! Suc k)"
    using tick_from_off(1)[OF step] d by (simp add: may_switch_on_def)
  have on: "pump_on (states cfg s0 envs ! k) \<longrightarrow>
          pump_on (states cfg s0 envs ! Suc k)
            = (now (envs ! k) - last_change (states cfg s0 envs ! k) < MIN_ON_SEC)"
    using tick_from_on(1)[OF step] m by (auto simp: must_switch_off_def)
  from d r off on
  show "\<not> out_decision (outs cfg s0 envs ! k)
     \<and> out_reason (outs cfg s0 envs ! k) = ''MANUAL''
     \<and> (\<not> pump_on (states cfg s0 envs ! k) \<longrightarrow> \<not> pump_on (states cfg s0 envs ! Suc k))
     \<and> (pump_on (states cfg s0 envs ! k) \<longrightarrow>
          pump_on (states cfg s0 envs ! Suc k)
            = (now (envs ! k) - last_change (states cfg s0 envs ! k) < MIN_ON_SEC))"
    by blast
qed

theorem manual_off_command_witness:
  "out_manual_enabled (outs loaded_cfg (initial 0 0 0 0) manual_off_envs ! 2)
   \<and> \<not> out_pump_command_manual (outs loaded_cfg (initial 0 0 0 0) manual_off_envs ! 2)
   \<and> out_soil (outs loaded_cfg (initial 0 0 0 0) manual_off_envs ! 2) \<le> EMERGENCY_ON_PCT
   \<and> pump_on (states loaded_cfg (initial 0 0 0 0) manual_off_envs ! 2)
   \<and> out_reason (outs loaded_cfg (initial 0 0 0 0) manual_off_envs ! 2) = ''MANUAL''
   \<and> pump_on (states loaded_cfg (initial 0 0 0 0) manual_off_envs ! Suc 2)
       = (now (manual_off_envs ! 2) - last_change (states loaded_cfg (initial 0 0 0 0) manual_off_envs ! 2)
            < MIN_ON_SEC)
   \<and> out_manual_enabled (outs loaded_cfg (initial 0 0 0 0) manual_off_envs ! 4)
   \<and> \<not> out_pump_command_manual (outs loaded_cfg (initial 0 0 0 0) manual_off_envs ! 4)
   \<and> pump_on (states loaded_cfg (initial 0 0 0 0) manual_off_envs ! 4)
   \<and> \<not> now (manual_off_envs ! 4) - last_change (states loaded_cfg (initial 0 0 0 0) manual_off_envs ! 4)
            < MIN_ON_SEC
   \<and> \<not> pump_on (states loaded_cfg (initial 0 0 0 0) manual_off_envs ! Suc 4)
   \<and> out_manual_enabled (outs loaded_cfg (initial 0 0 0 0) manual_off_envs ! 5)
   \<and> \<not> out_pump_command_manual (outs loaded_cfg (initial 0 0 0 0) manual_off_envs ! 5)
   \<and> \<not> pump_on (states loaded_cfg (initial 0 0 0 0) manual_off_envs ! 5)
   \<and> \<not> pump_on (states loaded_cfg (initial 0 0 0 0) manual_off_envs ! Suc 5)"
proof -
  let ?ss = "states loaded_cfg (initial 0 0 0 0) manual_off_envs"
  let ?os = "outs loaded_cfg (initial 0 0 0 0) manual_off_envs"
  have len: "2 < length manual_off_envs" "4 < length manual_off_envs" "5 < length manual_off_envs"
    by (simp_all add: manual_off_envs_def)
  have m2: "out_manual_enabled (?os ! 2)" and c2: "\<not> out_pump_command_manual (?os ! 2)"
    and e2: "out_soil (?os ! 2) \<le> EMERGENCY_ON_PCT" and p2: "pump_on (?ss ! 2)"
    and m4: "out_manual_enabled (?os ! 4)" and c4: "\<not> out_pump_command_manual (?os ! 4)"
    and p4: "pump_on (?ss ! 4)"
    and t4: "\<not> now (manual_off_envs ! 4) - last_change (?ss ! 4) < MIN_ON_SEC"
    and m5: "out_manual_enabled (?os ! 5)" and c5: "\<not> out_pump_command_manual (?os ! 5)"
    and p5: "\<not> pump_on (?ss ! 5)"
    by code_simp+
  note T = manual_off_command[of manual_off_envs loaded_cfg "initial 0 0 0 0"]
  from T len(1) m2 c2 p2
  have a: "out_reason (?os ! 2) = ''MANUAL''
     \<and> pump_on (?ss ! Suc 2) = (now (manual_off_envs ! 2) - last_change (?ss ! 2) < MIN_ON_SEC)"
    by blast
  from T len(2) m4 c4 p4
  have "pump_on (?ss ! Suc 4) = (now (manual_off_envs ! 4) - last_change (?ss ! 4) < MIN_ON_SEC)"
    by blast
  with t4 have b: "\<not> pump_on (?ss ! Suc 4)" by simp
  from T len(3) m5 c5 p5
  have c: "\<not> pump_on (?ss ! Suc 5)" by blast
  from m2 c2 e2 p2 a m4 c4 p4 t4 b m5 c5 p5 c show ?thesis by blast
qed

text \<open>
  The claim as first stated (the pump is off within \<open>MIN_ON_SEC\<close> of being switched
  on) fails on this run, with dry soil throughout: the pump goes on at time 3, the
  manual OFF command is seen at 6.2 and leaves it on, and the pump goes off at 9.4,
  which is 6.4 seconds after it went on.
\<close>

theorem manual_off_command_counterexample:
  "map now manual_off_envs = [3, 4.6, 6.2, 7.8, 9.4, 12.6]
   \<and> map pump_on (states loaded_cfg (initial 0 0 0 0) manual_off_envs)
       = [False, True, True, True, True, False, False]
   \<and> map out_manual_enabled (outs loaded_cfg (initial 0 0 0 0) manual_off_envs)
       = [False, False, True, False, True, True]
   \<and> map out_pump_command_manual (outs loaded_cfg (initial 0 0 0 0) manual_off_envs)
       = [False, False, False, False, False, False]
   \<and> map off_message (outs loaded_cfg (initial 0 0 0 0) manual_off_envs)
       = [None, None, None, None, Some ''Manual Command OFF received.'', None]
   \<and> \<not> (9.4 - 3 \<le> MIN_ON_SEC)"
  by code_simp

subsection \<open>The report round trip\<close>

text \<open>
  \<^bold>\<open>C9\<close> (as amended). The body built by \<open>send_sensor_data\<close> always validates against the
  backend's schema, and the parsed record has the same \<open>irrigation_status\<close>. Its
  \<open>ai_decision\<close> contains the reason tag when \<open>irrigation_status\<close> is true; when it is
  false, \<open>ai_decision\<close> is the fixed text \<open>Irrigation not required\<close>.
\<close>

theorem report_round_trip:
  "\<exists>d. parse_SensorDataBase (send_sensor_data t h sp st why) = Inr d
       \<and> irrigation_status d = st
       \<and> (st \<longrightarrow> sublist why (ai_decision d))
       \<and> (\<not> st \<longrightarrow> ai_decision d = ''Irrigation not required'')"
proof -
  have "sublist why (''Irrigation required (Reason: '' @ why @ '')'')"
    unfolding sublist_def by blast
  then show ?thesis
    by (simp add: parse_SensorDataBase_def send_sensor_data_def float_field_def bool_field_def
        str_field_def Let_def)
qed

theorem report_round_trip_witness:
  "\<exists>d. parse_SensorDataBase (send_sensor_data (Some 21.5) None 15 True ''EMERGENCY'') = Inr d
       \<and> irrigation_status d = True \<and> sublist ''EMERGENCY'' (ai_decision d)"
  using report_round_trip[of "Some 21.5" None 15 True "''EMERGENCY''"] by blast

text \<open>
  The claim as first stated (the reason tag is always in \<open>ai_decision\<close>) fails when
  the pump is off: the tag \<open>EMERGENCY\<close> is not in the text sent.
\<close>

theorem report_round_trip_counterexample:
  "parse_SensorDataBase (send_sensor_data None None 15 False ''EMERGENCY'')
     = Inr \<lparr>temperature = 25, humidity = 50, soil_moisture = 15, irrigation_status = False,
            ai_decision = ''Irrigation not required''\<rparr>
   \<and> \<not> sublist ''EMERGENCY'' ''Irrigation not required''"
  by (simp add: parse_SensorDataBase_def send_sensor_data_def float_field_def bool_field_def
        str_field_def Let_def sublist_Cons_right)

subsection \<open>The manual-control record of the backend\<close>

lemma get_manual_control_default:
  assumes "default_row db"
  shows "\<not> mc_manual_enabled (fst (get_manual_control db clock))"
    "\<not> mc_pump_command (fst (get_manual_control db clock))"
    "default_row (snd (get_manual_control db clock))"
  using assms
  by (auto simp: default_row_def get_manual_control_def Let_def split: option.splits)

lemma serve_gets_default:
  "default_row db \<Longrightarrow> \<forall>q \<in> set reqs. snd q = GetControlStatus \<Longrightarrow>
   \<forall>r \<in> set (serve db reqs). \<not> manual_enabled r \<and> \<not> pump_command r"
proof (induction reqs arbitrary: db)
  case Nil
  show ?case by simp
next
  case (Cons q reqs)
  obtain clock req where q: "q = (clock, req)" by (cases q)
  with Cons.prems(2) have req: "req = GetControlStatus" by simp
  have "default_row (snd (endpoint db clock req))"
    using get_manual_control_default(3)[OF Cons.prems(1)] by (simp add: endpoint_def req)
  from Cons.IH[OF this] Cons.prems(2)
  have rest: "\<forall>r \<in> set (serve (snd (endpoint db clock req)) reqs).
                \<not> manual_enabled r \<and> \<not> pump_command r"
    by simp
  have "\<not> manual_enabled (fst (endpoint db clock req)) \<and> \<not> pump_command (fst (endpoint db clock req))"
    using get_manual_control_default(1,2)[OF Cons.prems(1)]
    by (simp add: endpoint_def req response_model_def)
  with rest show ?case by (simp add: q)
qed

lemma length_serve: "length (serve db reqs) = length reqs"
  by (induction reqs arbitrary: db) auto

text \<open>
  \<^bold>\<open>C10.\<close> Reading the manual-control status never fails for lack of a record: with no
  row 1 in the table, \<open>get_manual_control\<close> creates, stores and returns the default row
  (manual mode disabled, pump commanded off), and in any case the row it returns is
  row 1 of the table afterwards. Every request is answered; and starting without a
  row 1, as long as only status reads arrive, every answer reports manual mode
  disabled and the pump commanded off.
\<close>

theorem get_manual_control_fresh:
  "(db 1 = None \<longrightarrow>
      get_manual_control db clock
        = (\<lparr>mc_id = 1, mc_manual_enabled = False, mc_pump_command = False, mc_timestamp = clock\<rparr>,
           db(1 \<mapsto> \<lparr>mc_id = 1, mc_manual_enabled = False, mc_pump_command = False,
                     mc_timestamp = clock\<rparr>)))
   \<and> snd (get_manual_control db clock) 1 = Some (fst (get_manual_control db clock))
   \<and> length (serve db reqs) = length reqs
   \<and> (db 1 = None \<and> (\<forall>q \<in> set reqs. snd q = GetControlStatus) \<longrightarrow>
        (\<forall>r \<in> set (serve db reqs). \<not> manual_enabled r \<and> \<not> pump_command r))"
proof -
  have a: "db 1 = None \<longrightarrow>
      get_manual_control db clock
        = (\<lparr>mc_id = 1, mc_manual_enabled = False, mc_pump_command = False, mc_timestamp = clock\<rparr>,
           db(1 \<mapsto> \<lparr>mc_id = 1, mc_manual_enabled = False, mc_pump_command = False,
                     mc_timestamp = clock\<rparr>))"
    by (simp add: get_manual_control_def Let_def)
  have b: "snd (get_manual_control db clock) 1 = Some (fst (get_manual_control db clock))"
    by (simp add: get_manual_control_def Let_def split: option.splits)
  have c: "db 1 = None \<and> (\<forall>q \<in> set reqs. snd q = GetControlStatus) \<longrightarrow>
        (\<forall>r \<in> set (serve db reqs). \<not> manual_enabled r \<and> \<not> pump_command r)"
    using serve_gets_default[of db reqs] by (simp add: default_row_def)
  from a b c length_serve[of db reqs] show ?thesis by blast
qed

theorem get_manual_control_fresh_witness:
  "(Map.empty :: manual_control_table) 1 = None
   \<and> get_manual_control Map.empty 7
       = (\<lparr>mc_id = 1, mc_manual_enabled = False, mc_pump_command = False, mc_timestamp = 7\<rparr>,
          [1 \<mapsto> \<lparr>mc_id = 1, mc_manual_enabled = False, mc_pump_command = False,
                   mc_timestamp = 7\<rparr>])
   \<and> map snd get_only = [GetControlStatus, GetControlStatus]
   \<and> map manual_enabled (serve Map.empty get_only) = [False, False]
   \<and> map pump_command (serve Map.empty get_only) = [False, False]"
proof -
  have h1: "(Map.empty :: manual_control_table) 1 = None" by simp
  have h2: "\<forall>q \<in> set get_only. snd q = GetControlStatus" by (simp add: get_only_def)
  have h3: "map snd get_only = [GetControlStatus, GetControlStatus]" by (simp add: get_only_def)
  have l: "length get_only = 2" by (simp add: get_only_def)
  note T = get_manual_control_fresh[of Map.empty 7 get_only]
  from T h1 have a: "get_manual_control Map.empty 7
       = (\<lparr>mc_id = 1, mc_manual_enabled = False, mc_pump_command = False, mc_timestamp = 7\<rparr>,
          [1 \<mapsto> \<lparr>mc_id = 1, mc_manual_enabled = False, mc_pump_command = False,
                   mc_timestamp = 7\<rparr>])"
    by blast
  from T h1 h2 have b: "\<forall>r \<in> set (serve Map.empty get_only). \<not> manual_enabled r \<and> \<not> pump_command r"
    by blast
  from T l have "length (serve Map.empty get_only) = 2" by simp
  then obtain x y where xy: "serve Map.empty get_only = [x, y]"
    by (auto simp: numeral_2_eq_2 length_Suc_conv)
  with b have c: "map manual_enabled (serve Map.empty get_only) = [False, False]"
    "map pump_command (serve Map.empty get_only) = [False, False]"
    by simp_all
  from h1 a h3 c show ?thesis by blast
qed

end
